theory Spec2Isabelle
  imports Complex_Main "HOL-Library.Word" "HOL-Library.Signed_Division"
begin

section \<open>Conventions of the embedding\<close>

text \<open>
  The ray tracer computes with C++ \<open>double\<close> and \<open>int\<close>. In this development the value
  of a \<open>double\<close> is a \<^typ>\<open>real\<close> and an \<open>int\<close> is an \<^typ>\<open>int\<close>.

  The recursive tracer and the lights are written with the exact operations that their
  formulas denote. The theorems about them say which ray is cast, which branch is taken on
  which sign and what is added to what; they do not speak of the rounding of intermediate
  results, and their hypotheses exclude the zero vectors and the zero index on which the
  source divides by zero and continues with an infinity or a NaN.

  Where a claim is about a value that the source obtains by rounding (the byte stored for a
  colour component, the cost that \<open>findBestPlane\<close> compares) every double operation of the
  source is written \<open>rd (x \<circ> y)\<close>: the operation on the reals followed by \<open>rd\<close>, a parameter
  that stands for the rounding to the nearest double. The theorems hold for every function
  \<open>rd\<close>, or name the properties of rounding that they use. An operation whose result is
  not a finite double (overflow, division by zero, an invalid operation) has no value in the
  model: hypotheses exclude it. A conversion to \<open>int\<close> whose result does not fit 32 bits
  is undefined in C++ and is \<open>None\<close> in the model, as is a signed overflow that the
  theorems exclude by their hypotheses on the image size.

  Code that the three source files call but do not define (the camera, the materials'
  shading, the primitives' own intersection routines, \<open>BoundingBox::intersect\<close> and
  \<open>BoundingBox::area\<close>, the constant \<open>RAY_EPSILON\<close>) enters the model as a parameter or as
  a record field.
\<close>

text \<open>
  The rounding used where a statement is evaluated on a concrete input. Every such input is
  chosen so that the double operations performed on it are exact, or so that a rounding
  error cannot change the comparison that decides the branch; the text that introduces the
  input says which.
\<close>

definition exact :: "real \<Rightarrow> real" where
  "exact x = x"

section \<open>Vectors (glm::dvec3)\<close>

type_synonym vec3 = "real \<times> real \<times> real"

text \<open>\<open>v[a]\<close>: the source indexes with axis 0, 1 or 2 only.\<close>

fun vidx :: "vec3 \<Rightarrow> int \<Rightarrow> real" where
  "vidx (x, y, z) a = (if a = 0 then x else if a = 1 then y else z)"

fun vset :: "vec3 \<Rightarrow> int \<Rightarrow> real \<Rightarrow> vec3" where
  "vset (x, y, z) a v = (if a = 0 then (v, y, z) else if a = 1 then (x, v, z) else (x, y, v))"

fun vadd :: "vec3 \<Rightarrow> vec3 \<Rightarrow> vec3" where
  "vadd (a, b, c) (x, y, z) = (a + x, b + y, c + z)"

fun vsub :: "vec3 \<Rightarrow> vec3 \<Rightarrow> vec3" where
  "vsub (a, b, c) (x, y, z) = (a - x, b - y, c - z)"

text \<open>Component-wise product, glm's \<open>*\<close> on two vectors.\<close>

fun vmul :: "vec3 \<Rightarrow> vec3 \<Rightarrow> vec3" where
  "vmul (a, b, c) (x, y, z) = (a * x, b * y, c * z)"

fun smul :: "real \<Rightarrow> vec3 \<Rightarrow> vec3" where
  "smul k (x, y, z) = (k * x, k * y, k * z)"

fun vneg :: "vec3 \<Rightarrow> vec3" where
  "vneg (x, y, z) = (- x, - y, - z)"

fun dot :: "vec3 \<Rightarrow> vec3 \<Rightarrow> real" where
  "dot (a, b, c) (x, y, z) = a * x + b * y + c * z"

definition vlength :: "vec3 \<Rightarrow> real" where
  "vlength v = sqrt (dot v v)"

text \<open>
  \<open>glm::normalize\<close>. On the zero vector the source divides by zero and produces NaN
  components, where the HOL quotient \<open>1 / 0\<close> is 0: the zero vector is outside the model,
  and the theorems about a normalised vector assume that it is not zero.
\<close>

definition normalize :: "vec3 \<Rightarrow> vec3" where
  "normalize v = smul (1 / vlength v) v"


definition clamp1 :: "real \<Rightarrow> real \<Rightarrow> real \<Rightarrow> real" where
  "clamp1 x lo hi = min (max x lo) hi"

fun clamp :: "vec3 \<Rightarrow> real \<Rightarrow> real \<Rightarrow> vec3" where
  "clamp (x, y, z) lo hi = (clamp1 x lo hi, clamp1 y lo hi, clamp1 z lo hi)"

definition zero3 :: vec3 where
  "zero3 = (0, 0, 0)"

section \<open>Rays, materials, intersection records\<close>

datatype RayType = VISIBILITY | REFLECTION | REFRACTION | SHADOW

record ray =
  origin :: vec3
  direction :: vec3
  atten :: vec3
  kind :: RayType

definition mk_ray :: "vec3 \<Rightarrow> vec3 \<Rightarrow> vec3 \<Rightarrow> RayType \<Rightarrow> ray" where
  "mk_ray p d w k = \<lparr>origin = p, direction = d, atten = w, kind = k\<rparr>"

definition ray_at :: "ray \<Rightarrow> real \<Rightarrow> vec3" where
  "ray_at r t = vadd (origin r) (smul t (direction r))"

text \<open>
  A material as the tracer sees it at one hit: \<open>m.Refl()\<close>, \<open>m.Trans()\<close> and the values of
  \<open>m.kr(i)\<close>, \<open>m.kt(i)\<close>, \<open>m.index(i)\<close> at the intersection that carries the material.
  \<open>mat_id\<close> identifies the material object.
\<close>

record material =
  mat_id :: nat
  Refl :: bool
  Trans :: bool
  kr :: vec3
  kt :: vec3
  index :: real

record isect =
  isect_t :: real
  isect_N :: vec3
  isect_material :: material

section \<open>The recursive tracer (RayTracer.cpp)\<close>

text \<open>
  What \<open>traceRay\<close> reads from the scene and from the user interface:
  \<open>scene->intersect\<close>, \<open>Material::shade\<close>, \<open>traceUI->getThreshold()\<close>,
  \<open>traceUI->cubeMap()\<close> with \<open>getCubeMap()->getColor\<close>, \<open>traceUI->getDepth()\<close>, the
  camera's \<open>rayThrough\<close> and the constant \<open>RAY_EPSILON\<close>.
\<close>

record env =
  scene_intersect :: "ray \<Rightarrow> isect option"
  shade :: "ray \<Rightarrow> isect \<Rightarrow> vec3"
  getThreshold :: real
  cubeMap :: "(ray \<Rightarrow> vec3) option"
  getDepth :: int
  rayThrough :: "real \<Rightarrow> real \<Rightarrow> ray"
  RAY_EPSILON :: real

text \<open>The threshold test of line 81: a conjunction over the three components.\<close>

definition below_threshold :: "env \<Rightarrow> vec3 \<Rightarrow> bool" where
  "below_threshold E thresh \<longleftrightarrow>
     vidx thresh 0 < getThreshold E \<and> vidx thresh 1 < getThreshold E \<and> vidx thresh 2 < getThreshold E"

text \<open>The reflected ray of lines 114 to 117.\<close>

definition reflect_ray :: "env \<Rightarrow> ray \<Rightarrow> isect \<Rightarrow> ray" where
  "reflect_ray E r i =
     (let position = ray_at r (isect_t i);
          d = normalize (direction r);
          n = normalize (isect_N i);
          dir = normalize (vsub d (smul (2 * dot d n) n))
      in mk_ray (vadd position (smul (RAY_EPSILON E) dir)) dir (1, 1, 1) REFLECTION)"

text \<open>
  Lines 124 to 144: the working normal, the ratio of indices and the discriminant \<open>k\<close>.
  The result is \<open>(normalSign, eta, w, k)\<close>. A material of index 0 makes the source divide
  by zero on an entering ray; it is outside the model, and the theorem about refraction
  assumes a non-zero index.
\<close>

definition refract_setup :: "ray \<Rightarrow> isect \<Rightarrow> vec3 \<times> real \<times> real \<times> real" where
  "refract_setup r i =
     (let m = isect_material i;
          d = normalize (direction r);
          n = normalize (isect_N i);
          rayIsExiting = (dot d n > 0);
          n_current = (if rayIsExiting then index m else 1);
          n_other = (if rayIsExiting then 1 else index m);
          normalSign = (if rayIsExiting then vneg n else n);
          eta = n_current / n_other;
          cosd = \<bar>dot normalSign d\<bar>;
          w = eta * cosd;
          k = 1 + (w - eta) * (w + eta)
      in (normalSign, eta, w, k))"

text \<open>The refracted ray of lines 147 to 150.\<close>

definition refract_ray :: "env \<Rightarrow> ray \<Rightarrow> isect \<Rightarrow> ray" where
  "refract_ray E r i =
     (case refract_setup r i of (normalSign, eta, w, k) \<Rightarrow>
        let position = ray_at r (isect_t i);
            d = normalize (direction r);
            dir = normalize (vadd (smul (w - sqrt k) normalSign) (smul eta d))
        in mk_ray (vadd position (smul (RAY_EPSILON E) dir)) dir (1, 1, 1) REFRACTION)"

text \<open>
  \<open>traceRay(r, thresh, depth, t)\<close>. The out-parameter \<open>t\<close> is threaded: the function takes
  its value on entry and returns its value on exit beside the colour. The recursion is on
  \<open>depth\<close>, which every recursive call decreases and which stops the recursion below 0.
\<close>

function traceRay :: "env \<Rightarrow> ray \<Rightarrow> vec3 \<Rightarrow> int \<Rightarrow> real \<Rightarrow> vec3 \<times> real" where
  "traceRay E r thresh depth t =
     (if depth < 0 then (zero3, t)
      else if below_threshold E thresh then (zero3, t)
      else (case scene_intersect E r of
          Some i \<Rightarrow>
            (let m = isect_material i;
                 afterRefl =
                   (if Refl m then
                      (let rc = traceRay E (reflect_ray E r i) (vmul (kr m) thresh) (depth - 1) (isect_t i)
                       in (vadd (shade E r i) (vmul (kr m) (fst rc)), snd rc))
                    else (shade E r i, isect_t i))
             in if Trans m then
                  (case refract_setup r i of (normalSign, eta, w, k) \<Rightarrow>
                     if k > 0 then
                       (let tc = traceRay E (refract_ray E r i) (vmul (kt m) thresh) (depth - 1) (snd afterRefl)
                        in (vadd (fst afterRefl) (vmul (kt m) (fst tc)), snd tc))
                     else afterRefl)
                else afterRefl)
        | None \<Rightarrow>
            (case cubeMap E of
               Some getColor \<Rightarrow> (getColor r, t)
             | None \<Rightarrow> (zero3, t))))"
  by pat_completeness auto
termination
  by (relation "measure (\<lambda>(E, r, thresh, depth, t). nat (depth + 1))") auto

declare traceRay.simps [simp del]

text \<open>
  \<open>trace(x, y)\<close>. The source passes an uninitialised \<open>double dummy\<close> for \<open>t\<close>; the model
  passes 0, and the colour does not depend on it, as the lemma after the definition shows.
  The call of \<open>clearIntersectCache\<close> in debug mode is left out.
\<close>

definition trace :: "env \<Rightarrow> real \<Rightarrow> real \<Rightarrow> vec3" where
  "trace E x y = clamp (fst (traceRay E (rayThrough E x y) (1, 1, 1) (getDepth E) 0)) 0 1"

lemma traceRay_colour_ignores_t:
  "fst (traceRay E r thresh depth t) = fst (traceRay E r thresh depth t')"
  by (subst traceRay.simps [of E r thresh depth t], subst traceRay.simps [of E r thresh depth t'])
    (simp add: Let_def split: option.splits prod.splits)


section \<open>The frame buffer (RayTracer.cpp)\<close>

text \<open>
  The fields of \<open>RayTracer\<close> that the pixel routines use. \<open>sceneLoaded\<close> is the value of
  \<open>sceneLoaded()\<close>; \<open>buffer\<close> is the \<open>std::vector<unsigned char>\<close>.
\<close>

record rt_state =
  sceneLoaded :: bool
  buffer :: "8 word list"
  buffer_width :: int
  buffer_height :: int
  threads :: int

text \<open>
  The conversion \<open>(int) v\<close> of a double truncates toward zero; it is undefined when the
  truncated value does not fit the 32-bit \<open>int\<close>, and then the model has \<open>None\<close>. Storing
  the \<open>int\<close> in an \<open>unsigned char\<close> keeps it modulo 256.
\<close>

definition trunc0 :: "real \<Rightarrow> int" where
  "trunc0 v = (if v \<ge> 0 then \<lfloor>v\<rfloor> else \<lceil>v\<rceil>)"

definition int_range :: "int \<Rightarrow> bool" where
  "int_range n \<longleftrightarrow> - (2 ^ 31) \<le> n \<and> n < 2 ^ 31"

definition double_to_int :: "real \<Rightarrow> int option" where
  "double_to_int v = (if int_range (trunc0 v) then Some (trunc0 v) else None)"

definition to_uchar :: "int \<Rightarrow> 8 word" where
  "to_uchar n = word_of_int n"

text \<open>
  \<open>(int)(255.0 * c)\<close> assigned to an \<open>unsigned char\<close>: the product is a double
  multiplication and is rounded before it is truncated.
\<close>

definition channel :: "(real \<Rightarrow> real) \<Rightarrow> real \<Rightarrow> 8 word option" where
  "channel rd c = map_option to_uchar (double_to_int (rd (255 * c)))"

text \<open>
  \<open>pixel[0]\<close>, \<open>pixel[1]\<close>, \<open>pixel[2]\<close> with \<open>pixel = buffer.data() + off\<close>. An access
  outside the vector is undefined behaviour in the source; the model returns \<open>None\<close>.
\<close>

definition write_pixel :: "(real \<Rightarrow> real) \<Rightarrow> 8 word list \<Rightarrow> int \<Rightarrow> vec3 \<Rightarrow> 8 word list option" where
  "write_pixel rd buf off col =
     (if 0 \<le> off \<and> off + 2 < int (length buf) then
        (case channel rd (vidx col 0) of
           None \<Rightarrow> None
         | Some c0 \<Rightarrow>
             (case channel rd (vidx col 1) of
                None \<Rightarrow> None
              | Some c1 \<Rightarrow>
                  (case channel rd (vidx col 2) of
                     None \<Rightarrow> None
                   | Some c2 \<Rightarrow> Some (buf[nat off := c0, nat off + 1 := c1, nat off + 2 := c2]))))
      else None)"

definition pixel_offset :: "rt_state \<Rightarrow> int \<Rightarrow> int \<Rightarrow> int" where
  "pixel_offset st i j = (i + j * buffer_width st) * 3"

text \<open>
  \<open>tracePixel(i, j)\<close>. The two quotients \<open>double(i) / double(buffer_width)\<close> and
  \<open>double(j) / double(buffer_height)\<close> are double divisions.
\<close>

definition tracePixel :: "(real \<Rightarrow> real) \<Rightarrow> env \<Rightarrow> rt_state \<Rightarrow> int \<Rightarrow> int \<Rightarrow> (vec3 \<times> rt_state) option" where
  "tracePixel rd E st i j =
     (if \<not> sceneLoaded st then Some (zero3, st)
      else
        (let x = rd (real_of_int i / real_of_int (buffer_width st));
             y = rd (real_of_int j / real_of_int (buffer_height st));
             col = trace E x y
         in map_option (\<lambda>b. (col, st\<lparr>buffer := b\<rparr>))
              (write_pixel rd (buffer st) (pixel_offset st i j) col)))"

definition setPixel :: "(real \<Rightarrow> real) \<Rightarrow> rt_state \<Rightarrow> int \<Rightarrow> int \<Rightarrow> vec3 \<Rightarrow> rt_state option" where
  "setPixel rd st i j color =
     map_option (\<lambda>b. st\<lparr>buffer := b\<rparr>) (write_pixel rd (buffer st) (pixel_offset st i j) color)"

section \<open>Base cases of the recursion\<close>

text \<open>An environment and a ray on which the statements below are evaluated.\<close>

definition sky_env :: env where
  "sky_env = \<lparr>scene_intersect = (\<lambda>r. None), shade = (\<lambda>r i. zero3), getThreshold = 1 / 2,
     cubeMap = Some (\<lambda>r. (1, 1, 1)), getDepth = 3,
     rayThrough = (\<lambda>x y. mk_ray (0, 0, 0) (0, 0, - 1) (1, 1, 1) VISIBILITY),
     RAY_EPSILON = 1 / 10 ^ 12\<rparr>"

definition eye_ray :: ray where
  "eye_ray = mk_ray (0, 0, 0) (0, 0, - 1) (1, 1, 1) VISIBILITY"

text \<open>
  Claim C3. \<open>traceRay\<close> returns the colour (0,0,0) when \<open>depth < 0\<close>, and when all three
  components of \<open>thresh\<close> are below the threshold of the user interface. The cutoff is a
  conjunction: with \<open>depth \<ge> 0\<close> and one component at or above the threshold the base
  case does not fire and the ray is intersected with the scene, so that a miss returns the
  colour of the cube map and a hit on a material that neither reflects nor transmits
  returns its shade.
\<close>

theorem traceRay_base_cases:
  "(depth < 0 \<longrightarrow> fst (traceRay E r thresh depth t) = (0, 0, 0)) \<and>
   (vidx thresh 0 < getThreshold E \<and> vidx thresh 1 < getThreshold E \<and> vidx thresh 2 < getThreshold E
      \<longrightarrow> fst (traceRay E r thresh depth t) = (0, 0, 0)) \<and>
   (0 \<le> depth \<and> (getThreshold E \<le> vidx thresh 0 \<or> getThreshold E \<le> vidx thresh 1 \<or> getThreshold E \<le> vidx thresh 2)
      \<longrightarrow> (\<forall>g. scene_intersect E r = None \<and> cubeMap E = Some g
                \<longrightarrow> fst (traceRay E r thresh depth t) = g r) \<and>
          (\<forall>i. scene_intersect E r = Some i \<and> \<not> Refl (isect_material i) \<and> \<not> Trans (isect_material i)
                \<longrightarrow> fst (traceRay E r thresh depth t) = shade E r i))"
proof (intro conjI impI allI)
  assume "depth < 0"
  then show "fst (traceRay E r thresh depth t) = (0, 0, 0)"
    by (simp add: traceRay.simps zero3_def)
next
  assume "vidx thresh 0 < getThreshold E \<and> vidx thresh 1 < getThreshold E \<and> vidx thresh 2 < getThreshold E"
  then have "below_threshold E thresh"
    by (simp add: below_threshold_def)
  then show "fst (traceRay E r thresh depth t) = (0, 0, 0)"
    by (simp add: traceRay.simps zero3_def)
next
  fix g
  assume a: "0 \<le> depth \<and> (getThreshold E \<le> vidx thresh 0 \<or> getThreshold E \<le> vidx thresh 1 \<or> getThreshold E \<le> vidx thresh 2)"
    and b: "scene_intersect E r = None \<and> cubeMap E = Some g"
  from a have "\<not> below_threshold E thresh"
    by (auto simp: below_threshold_def)
  with a b show "fst (traceRay E r thresh depth t) = g r"
    by (simp add: traceRay.simps)
next
  fix i
  assume a: "0 \<le> depth \<and> (getThreshold E \<le> vidx thresh 0 \<or> getThreshold E \<le> vidx thresh 1 \<or> getThreshold E \<le> vidx thresh 2)"
    and b: "scene_intersect E r = Some i \<and> \<not> Refl (isect_material i) \<and> \<not> Trans (isect_material i)"
  from a have "\<not> below_threshold E thresh"
    by (auto simp: below_threshold_def)
  with a b show "fst (traceRay E r thresh depth t) = shade E r i"
    by (simp add: traceRay.simps)
qed

theorem traceRay_base_cases_witness:
  "fst (traceRay sky_env eye_ray (1, 1, 1) (- 1) 0) = (0, 0, 0) \<and>
   fst (traceRay sky_env eye_ray (1 / 4, 1 / 4, 1 / 4) 3 0) = (0, 0, 0) \<and>
   fst (traceRay sky_env eye_ray (1 / 4, 1 / 4, 1) 3 0) = (1, 1, 1)"
  using traceRay_base_cases [of "- 1" sky_env eye_ray "(1, 1, 1)" 0]
    traceRay_base_cases [of 3 sky_env eye_ray "(1 / 4, 1 / 4, 1 / 4)" 0]
    traceRay_base_cases [of 3 sky_env eye_ray "(1 / 4, 1 / 4, 1)" 0]
  by (simp add: sky_env_def)

text \<open>
  Claim C10. With no scene loaded \<open>tracePixel\<close> returns (0,0,0) and leaves the frame buffer,
  and the rest of the tracer's state, as it was.
\<close>

theorem tracePixel_no_scene:
  "\<not> sceneLoaded st \<Longrightarrow> tracePixel rd E st i j = Some ((0, 0, 0), st)"
  by (simp add: tracePixel_def zero3_def)

theorem tracePixel_no_scene_witness:
  "\<not> sceneLoaded \<lparr>sceneLoaded = False, buffer = [7, 8, 9], buffer_width = 1, buffer_height = 1, threads = 1\<rparr> \<and>
   tracePixel exact sky_env \<lparr>sceneLoaded = False, buffer = [7, 8, 9], buffer_width = 1, buffer_height = 1, threads = 1\<rparr> 0 0
     = Some ((0, 0, 0), \<lparr>sceneLoaded = False, buffer = [7, 8, 9], buffer_width = 1, buffer_height = 1, threads = 1\<rparr>)"
  using tracePixel_no_scene [of "\<lparr>sceneLoaded = False, buffer = [7, 8, 9], buffer_width = 1, buffer_height = 1, threads = 1\<rparr>" exact sky_env 0 0]
  by simp

section \<open>The pixel format\<close>

text \<open>
  The byte that the specification describes for a colour component \<open>c\<close>:
  \<open>round(255 \<sqdot> clamp(c, 0, 1))\<close>.
\<close>

definition spec_channel_byte :: "real \<Rightarrow> 8 word" where
  "spec_channel_byte c = to_uchar (round (255 * clamp1 c 0 1))"

text \<open>
  A loaded tracer with a buffer of two pixels, and a scene that shows a grey cube map. The
  colour components used with them (\<open>1/8\<close>, \<open>1/4\<close>, \<open>1/2\<close>, 1 and 2) are doubles whose
  products with 255 are exact in double arithmetic, as are the quotients \<open>0 / 1\<close>, \<open>0 / 2\<close>
  and \<open>1 / 2\<close> of the pixel coordinates.
\<close>

definition two_pixels :: rt_state where
  "two_pixels = \<lparr>sceneLoaded = True, buffer = [0, 0, 0, 0, 0, 0], buffer_width = 2,
     buffer_height = 1, threads = 1\<rparr>"

definition grey_env :: env where
  "grey_env = \<lparr>scene_intersect = (\<lambda>r. None), shade = (\<lambda>r i. zero3), getThreshold = 1 / 2,
     cubeMap = Some (\<lambda>r. (1 / 8, 1 / 8, 1 / 8)), getDepth = 3,
     rayThrough = (\<lambda>x y. mk_ray (0, 0, 0) (0, 0, - 1) (1, 1, 1) VISIBILITY),
     RAY_EPSILON = 1 / 10 ^ 12\<rparr>"

lemma offset_in_range:
  assumes "0 \<le> i" "i < w" "0 \<le> j" "j < h"
  shows "0 \<le> (i + j * w) * 3 \<and> (i + j * w) * 3 + 2 < w * h * (3::int)"
proof -
  have "j * w \<le> (h - 1) * w"
    using assms by (intro mult_right_mono) auto
  then have "i + j * w \<le> w * h - 1"
    using assms by (simp add: algebra_simps)
  moreover have "0 \<le> j * w" using assms by simp
  ultimately show ?thesis using assms by auto
qed

lemma channel_Some:
  assumes "int_range (trunc0 (rd (255 * c)))"
  shows "channel rd c = Some (to_uchar (trunc0 (rd (255 * c))))"
  using assms by (simp add: channel_def double_to_int_def)

lemma write_pixel_Some:
  assumes "0 \<le> off" "off + 2 < int (length buf)"
    and "int_range (trunc0 (rd (255 * vidx col 0)))"
    and "int_range (trunc0 (rd (255 * vidx col 1)))"
    and "int_range (trunc0 (rd (255 * vidx col 2)))"
  shows "write_pixel rd buf off col =
           Some (buf[nat off := to_uchar (trunc0 (rd (255 * vidx col 0))),
                     nat off + 1 := to_uchar (trunc0 (rd (255 * vidx col 1))),
                     nat off + 2 := to_uchar (trunc0 (rd (255 * vidx col 2)))])"
  using assms by (simp add: write_pixel_def channel_Some)

text \<open>
  A colour component in \<open>[0, 1]\<close>: rounding is monotone and leaves 0 and 255 as they are,
  so the rounded product lies in \<open>[0, 255]\<close> and its truncation is its floor.
\<close>

lemma unit_channel:
  fixes rd :: "real \<Rightarrow> real" and c :: real
  assumes "mono rd" "rd 0 = 0" "rd 255 = 255" "0 \<le> c" "c \<le> 1"
  shows "trunc0 (rd (255 * c)) = \<lfloor>rd (255 * c)\<rfloor>" "0 \<le> \<lfloor>rd (255 * c)\<rfloor>" "\<lfloor>rd (255 * c)\<rfloor> \<le> 255"
    "int_range (trunc0 (rd (255 * c)))"
proof -
  have "rd 0 \<le> rd (255 * c)" "rd (255 * c) \<le> rd 255"
    using assms(4,5) by (auto intro!: monoD [OF assms(1)])
  then have r: "0 \<le> rd (255 * c)" "rd (255 * c) \<le> 255"
    using assms(2,3) by simp_all
  then show t: "trunc0 (rd (255 * c)) = \<lfloor>rd (255 * c)\<rfloor>"
    by (simp add: trunc0_def)
  show f: "0 \<le> \<lfloor>rd (255 * c)\<rfloor>" "\<lfloor>rd (255 * c)\<rfloor> \<le> 255"
    using r by (simp_all add: floor_le_iff)
  then show "int_range (trunc0 (rd (255 * c)))"
    unfolding t by (simp add: int_range_def)
qed

lemma trace_clamped: "\<exists>a b c. trace E x y = (clamp1 a 0 1, clamp1 b 0 1, clamp1 c 0 1)"
proof -
  obtain a b c where "fst (traceRay E (rayThrough E x y) (1, 1, 1) (getDepth E) 0) = (a, b, c)"
    using prod_cases3 by blast
  then show ?thesis by (auto simp: trace_def)
qed

text \<open>What \<open>tracePixel\<close> does to a loaded tracer at a pixel inside the image.\<close>

lemma tracePixel_loaded:
  assumes "0 \<le> i" "i < buffer_width st" "0 \<le> j" "j < buffer_height st"
    and "int (length (buffer st)) = buffer_width st * buffer_height st * 3"
    and "sceneLoaded st" and "mono rd" "rd 0 = 0" "rd 255 = 255"
  shows "\<exists>cr cg cb.
           trace E (rd (real_of_int i / real_of_int (buffer_width st)))
                   (rd (real_of_int j / real_of_int (buffer_height st))) = (cr, cg, cb) \<and>
           0 \<le> cr \<and> cr \<le> 1 \<and> 0 \<le> cg \<and> cg \<le> 1 \<and> 0 \<le> cb \<and> cb \<le> 1 \<and>
           tracePixel rd E st i j = Some ((cr, cg, cb), st\<lparr>buffer := (buffer st)
             [nat ((i + j * buffer_width st) * 3) := to_uchar \<lfloor>rd (255 * cr)\<rfloor>,
              nat ((i + j * buffer_width st) * 3) + 1 := to_uchar \<lfloor>rd (255 * cg)\<rfloor>,
              nat ((i + j * buffer_width st) * 3) + 2 := to_uchar \<lfloor>rd (255 * cb)\<rfloor>]\<rparr>)"
proof -
  let ?off = "(i + j * buffer_width st) * 3"
  let ?col = "trace E (rd (real_of_int i / real_of_int (buffer_width st)))
                      (rd (real_of_int j / real_of_int (buffer_height st)))"
  have rng: "0 \<le> ?off" "?off + 2 < int (length (buffer st))"
    using offset_in_range [OF assms(1-4)] assms(5) by auto
  obtain x y z where col: "?col = (clamp1 x 0 1, clamp1 y 0 1, clamp1 z 0 1)"
    using trace_clamped by blast
  define cr where "cr = clamp1 x 0 1"
  define cg where "cg = clamp1 y 0 1"
  define cb where "cb = clamp1 z 0 1"
  have bounds: "0 \<le> cr" "cr \<le> 1" "0 \<le> cg" "cg \<le> 1" "0 \<le> cb" "cb \<le> 1"
    by (simp_all add: cr_def cg_def cb_def clamp1_def)
  have col': "?col = (cr, cg, cb)"
    by (simp add: col cr_def cg_def cb_def)
  note ur = unit_channel [OF assms(7-9) bounds(1,2)]
  note ug = unit_channel [OF assms(7-9) bounds(3,4)]
  note ub = unit_channel [OF assms(7-9) bounds(5,6)]
  have "write_pixel rd (buffer st) ?off (cr, cg, cb) = Some ((buffer st)
             [nat ?off := to_uchar \<lfloor>rd (255 * cr)\<rfloor>,
              nat ?off + 1 := to_uchar \<lfloor>rd (255 * cg)\<rfloor>,
              nat ?off + 2 := to_uchar \<lfloor>rd (255 * cb)\<rfloor>])"
    using write_pixel_Some [OF rng, of rd "(cr, cg, cb)"] ur(1,4) ug(1,4) ub(1,4) by simp
  then have "tracePixel rd E st i j = Some ((cr, cg, cb), st\<lparr>buffer := (buffer st)
             [nat ?off := to_uchar \<lfloor>rd (255 * cr)\<rfloor>,
              nat ?off + 1 := to_uchar \<lfloor>rd (255 * cg)\<rfloor>,
              nat ?off + 2 := to_uchar \<lfloor>rd (255 * cb)\<rfloor>]\<rparr>)"
    using assms(6) by (simp only: tracePixel_def col' pixel_offset_def Let_def option.map) simp
  with col' bounds show ?thesis by blast
qed

lemma exact_rounding: "mono exact" "exact 0 = 0" "exact 255 = 255"
  by (simp_all add: exact_def mono_def)

lemma trace_grey: "trace grey_env x y = (1 / 8, 1 / 8, 1 / 8)"
  by (simp add: trace_def grey_env_def traceRay.simps below_threshold_def clamp1_def)

text \<open>
  Claim C4 as stated fails. The store is a C cast, which truncates: the component 1/8 gives
  \<open>255/8 = 31.875\<close>, stored as 31 by \<open>setPixel\<close> and by \<open>tracePixel\<close> alike, where rounding
  gives 32. \<open>setPixel\<close> moreover does not clamp: the component 2 is stored as
  \<open>510 mod 256 = 254\<close>, not as 255. The products \<open>255 \<sqdot> 0.125\<close> and \<open>255 \<sqdot> 2\<close> and the
  quotients \<open>1 / 2\<close> and \<open>0 / 1\<close> are exact in double arithmetic.
\<close>

theorem pixel_rounding_counterexample:
  "setPixel exact two_pixels 1 0 (1 / 8, 1 / 8, 1 / 8) = Some (two_pixels\<lparr>buffer := [0, 0, 0, 31, 31, 31]\<rparr>) \<and>
   tracePixel exact grey_env two_pixels 1 0
     = Some ((1 / 8, 1 / 8, 1 / 8), two_pixels\<lparr>buffer := [0, 0, 0, 31, 31, 31]\<rparr>) \<and>
   spec_channel_byte (1 / 8) = 32 \<and> (31 :: 8 word) \<noteq> 32 \<and>
   setPixel exact two_pixels 0 0 (2, 0, 0) = Some (two_pixels\<lparr>buffer := [254, 0, 0, 0, 0, 0]\<rparr>) \<and>
   spec_channel_byte 2 = 255 \<and> (254 :: 8 word) \<noteq> 255"
proof (intro conjI)
  have ch: "channel exact (1 / 8) = Some 31" "channel exact 2 = Some 254" "channel exact 0 = Some 0"
    by (simp_all add: channel_def double_to_int_def trunc0_def int_range_def exact_def to_uchar_def)
  show "setPixel exact two_pixels 1 0 (1 / 8, 1 / 8, 1 / 8) = Some (two_pixels\<lparr>buffer := [0, 0, 0, 31, 31, 31]\<rparr>)"
    by (simp add: setPixel_def write_pixel_def pixel_offset_def two_pixels_def ch numeral_3_eq_3)
  show "tracePixel exact grey_env two_pixels 1 0
     = Some ((1 / 8, 1 / 8, 1 / 8), two_pixels\<lparr>buffer := [0, 0, 0, 31, 31, 31]\<rparr>)"
    by (simp add: tracePixel_def trace_grey write_pixel_def pixel_offset_def two_pixels_def ch
        numeral_3_eq_3)
  show "spec_channel_byte (1 / 8) = 32"
    by (simp add: spec_channel_byte_def to_uchar_def clamp1_def round_def)
  show "(31 :: 8 word) \<noteq> 32" by simp
  show "setPixel exact two_pixels 0 0 (2, 0, 0) = Some (two_pixels\<lparr>buffer := [254, 0, 0, 0, 0, 0]\<rparr>)"
    by (simp add: setPixel_def write_pixel_def pixel_offset_def two_pixels_def ch)
  show "spec_channel_byte 2 = 255"
    by (simp add: spec_channel_byte_def to_uchar_def clamp1_def round_def)
  show "(254 :: 8 word) \<noteq> 255" by simp
qed

text \<open>
  Claim C4, amended. For a pixel \<open>(i, j)\<close> inside a \<open>w \<times> h\<close> buffer of \<open>w \<sqdot> h \<sqdot> 3\<close> bytes,
  a number that fits an \<open>int\<close> (so that the offset is computed without overflow),
  \<open>setPixel\<close> and (with a scene loaded) \<open>tracePixel\<close> write the three bytes at offset
  \<open>(i + j \<sqdot> w) \<sqdot> 3\<close>, which lies inside the buffer, in the order R, G, B, and no other
  byte. Each byte is the double product \<open>255.0 * c\<close>, truncated toward zero by the cast to
  \<open>int\<close> and reduced modulo 256 by the store. \<open>setPixel\<close> does this to the colour it is
  given, unclamped, provided the three truncated products fit an \<open>int\<close> (otherwise the cast
  is undefined). \<open>tracePixel\<close> does it to the colour it returns, which is clamped to
  \<open>[0, 1]\<close>, so that the byte is the floor of the rounded product and lies in \<open>[0, 255]\<close>;
  this part uses that rounding is monotone and exact on 0 and 255.
\<close>

theorem pixel_store:
  assumes "0 \<le> i" "i < buffer_width st" "0 \<le> j" "j < buffer_height st"
    and "int (length (buffer st)) = buffer_width st * buffer_height st * 3"
    and "buffer_width st * buffer_height st * 3 < 2 ^ 31"
  shows "nat ((i + j * buffer_width st) * 3) + 2 < length (buffer st) \<and>
         (int_range (trunc0 (rd (255 * vidx color 0))) \<and> int_range (trunc0 (rd (255 * vidx color 1))) \<and>
          int_range (trunc0 (rd (255 * vidx color 2))) \<longrightarrow>
            setPixel rd st i j color = Some (st\<lparr>buffer := (buffer st)
              [nat ((i + j * buffer_width st) * 3) := to_uchar (trunc0 (rd (255 * vidx color 0))),
               nat ((i + j * buffer_width st) * 3) + 1 := to_uchar (trunc0 (rd (255 * vidx color 1))),
               nat ((i + j * buffer_width st) * 3) + 2 := to_uchar (trunc0 (rd (255 * vidx color 2)))]\<rparr>)) \<and>
         (sceneLoaded st \<and> mono rd \<and> rd 0 = 0 \<and> rd 255 = 255 \<longrightarrow>
           (\<exists>cr cg cb.
              trace E (rd (real_of_int i / real_of_int (buffer_width st)))
                      (rd (real_of_int j / real_of_int (buffer_height st))) = (cr, cg, cb) \<and>
              0 \<le> cr \<and> cr \<le> 1 \<and> 0 \<le> cg \<and> cg \<le> 1 \<and> 0 \<le> cb \<and> cb \<le> 1 \<and>
              0 \<le> \<lfloor>rd (255 * cr)\<rfloor> \<and> \<lfloor>rd (255 * cr)\<rfloor> \<le> 255 \<and>
              0 \<le> \<lfloor>rd (255 * cg)\<rfloor> \<and> \<lfloor>rd (255 * cg)\<rfloor> \<le> 255 \<and>
              0 \<le> \<lfloor>rd (255 * cb)\<rfloor> \<and> \<lfloor>rd (255 * cb)\<rfloor> \<le> 255 \<and>
              tracePixel rd E st i j = Some ((cr, cg, cb), st\<lparr>buffer := (buffer st)
                [nat ((i + j * buffer_width st) * 3) := to_uchar \<lfloor>rd (255 * cr)\<rfloor>,
                 nat ((i + j * buffer_width st) * 3) + 1 := to_uchar \<lfloor>rd (255 * cg)\<rfloor>,
                 nat ((i + j * buffer_width st) * 3) + 2 := to_uchar \<lfloor>rd (255 * cb)\<rfloor>]\<rparr>)))"
proof -
  let ?off = "(i + j * buffer_width st) * 3"
  have rng: "0 \<le> ?off" "?off + 2 < int (length (buffer st))"
    using offset_in_range [OF assms(1-4)] assms(5) by auto
  then have inside: "nat ?off + 2 < length (buffer st)"
    by linarith
  have first: "setPixel rd st i j color = Some (st\<lparr>buffer := (buffer st)
              [nat ?off := to_uchar (trunc0 (rd (255 * vidx color 0))),
               nat ?off + 1 := to_uchar (trunc0 (rd (255 * vidx color 1))),
               nat ?off + 2 := to_uchar (trunc0 (rd (255 * vidx color 2)))]\<rparr>)"
    if "int_range (trunc0 (rd (255 * vidx color 0)))" "int_range (trunc0 (rd (255 * vidx color 1)))"
      "int_range (trunc0 (rd (255 * vidx color 2)))"
    by (simp only: setPixel_def pixel_offset_def write_pixel_Some [OF rng that] option.map)
  have second: "\<exists>cr cg cb.
              trace E (rd (real_of_int i / real_of_int (buffer_width st)))
                      (rd (real_of_int j / real_of_int (buffer_height st))) = (cr, cg, cb) \<and>
              0 \<le> cr \<and> cr \<le> 1 \<and> 0 \<le> cg \<and> cg \<le> 1 \<and> 0 \<le> cb \<and> cb \<le> 1 \<and>
              0 \<le> \<lfloor>rd (255 * cr)\<rfloor> \<and> \<lfloor>rd (255 * cr)\<rfloor> \<le> 255 \<and>
              0 \<le> \<lfloor>rd (255 * cg)\<rfloor> \<and> \<lfloor>rd (255 * cg)\<rfloor> \<le> 255 \<and>
              0 \<le> \<lfloor>rd (255 * cb)\<rfloor> \<and> \<lfloor>rd (255 * cb)\<rfloor> \<le> 255 \<and>
              tracePixel rd E st i j = Some ((cr, cg, cb), st\<lparr>buffer := (buffer st)
                [nat ?off := to_uchar \<lfloor>rd (255 * cr)\<rfloor>,
                 nat ?off + 1 := to_uchar \<lfloor>rd (255 * cg)\<rfloor>,
                 nat ?off + 2 := to_uchar \<lfloor>rd (255 * cb)\<rfloor>]\<rparr>)"
    if h: "sceneLoaded st" "mono rd" "rd 0 = 0" "rd 255 = 255"
  proof -
    from tracePixel_loaded [OF assms(1-5) h, of E]
    obtain cr cg cb where c: "trace E (rd (real_of_int i / real_of_int (buffer_width st)))
                      (rd (real_of_int j / real_of_int (buffer_height st))) = (cr, cg, cb)"
      "0 \<le> cr" "cr \<le> 1" "0 \<le> cg" "cg \<le> 1" "0 \<le> cb" "cb \<le> 1"
      "tracePixel rd E st i j = Some ((cr, cg, cb), st\<lparr>buffer := (buffer st)
                [nat ?off := to_uchar \<lfloor>rd (255 * cr)\<rfloor>,
                 nat ?off + 1 := to_uchar \<lfloor>rd (255 * cg)\<rfloor>,
                 nat ?off + 2 := to_uchar \<lfloor>rd (255 * cb)\<rfloor>]\<rparr>)"
      by blast
    note ur = unit_channel(2,3) [OF h(2-4) c(2,3)]
    note ug = unit_channel(2,3) [OF h(2-4) c(4,5)]
    note ub = unit_channel(2,3) [OF h(2-4) c(6,7)]
    from c ur ug ub show ?thesis by blast
  qed
  from inside first second show ?thesis by blast
qed

theorem pixel_store_witness:
  "setPixel exact two_pixels 1 0 (1 / 2, 1 / 4, 1) = Some (two_pixels\<lparr>buffer := [0, 0, 0, 127, 63, 255]\<rparr>) \<and>
   tracePixel exact grey_env two_pixels 1 0 = Some ((1 / 8, 1 / 8, 1 / 8), two_pixels\<lparr>buffer := [0, 0, 0, 31, 31, 31]\<rparr>)"
proof -
  have h: "(0::int) \<le> 1" "1 < buffer_width two_pixels" "(0::int) \<le> 0" "0 < buffer_height two_pixels"
    "int (length (buffer two_pixels)) = buffer_width two_pixels * buffer_height two_pixels * 3"
    "buffer_width two_pixels * buffer_height two_pixels * 3 < 2 ^ 31"
    by (simp_all add: two_pixels_def)
  have ld: "sceneLoaded two_pixels \<and> mono exact \<and> exact 0 = 0 \<and> exact 255 = 255"
    by (simp add: two_pixels_def exact_rounding)
  have rg: "int_range (trunc0 (exact (255 * vidx (1 / 2, 1 / 4, 1) 0))) \<and>
      int_range (trunc0 (exact (255 * vidx (1 / 2, 1 / 4, 1) 1))) \<and>
      int_range (trunc0 (exact (255 * vidx (1 / 2, 1 / 4, 1) 2)))"
    by (simp add: int_range_def trunc0_def exact_def)
  have off: "nat ((1 + 0 * buffer_width two_pixels) * 3) = 3"
    by (simp add: two_pixels_def)
  have buf: "buffer two_pixels = [0, 0, 0, 0, 0, 0]"
    by (simp add: two_pixels_def)
  note inst = pixel_store [OF h, of exact "(1 / 2, 1 / 4, 1)" grey_env, unfolded off buf trace_grey]
  from inst rg have "setPixel exact two_pixels 1 0 (1 / 2, 1 / 4, 1) = Some (two_pixels\<lparr>buffer := [0, 0, 0, 0, 0, 0]
            [3 := to_uchar (trunc0 (exact (255 * vidx (1 / 2, 1 / 4, 1) 0))),
             3 + 1 := to_uchar (trunc0 (exact (255 * vidx (1 / 2, 1 / 4, 1) 1))),
             3 + 2 := to_uchar (trunc0 (exact (255 * vidx (1 / 2, 1 / 4, 1) 2)))]\<rparr>)"
    by blast
  then have a: "setPixel exact two_pixels 1 0 (1 / 2, 1 / 4, 1) = Some (two_pixels\<lparr>buffer := [0, 0, 0, 127, 63, 255]\<rparr>)"
    by (simp add: to_uchar_def trunc0_def exact_def numeral_3_eq_3)
  from inst ld obtain cr cg cb where e: "(1 / 8, 1 / 8, 1 / 8) = (cr, cg, cb)"
    and t: "tracePixel exact grey_env two_pixels 1 0 = Some ((cr, cg, cb), two_pixels\<lparr>buffer := [0, 0, 0, 0, 0, 0]
                [3 := to_uchar \<lfloor>exact (255 * cr)\<rfloor>, 3 + 1 := to_uchar \<lfloor>exact (255 * cg)\<rfloor>,
                 3 + 2 := to_uchar \<lfloor>exact (255 * cb)\<rfloor>]\<rparr>)"
    by blast
  from e have "cr = 1 / 8" "cg = 1 / 8" "cb = 1 / 8"
    by auto
  with t have b: "tracePixel exact grey_env two_pixels 1 0 = Some ((1 / 8, 1 / 8, 1 / 8), two_pixels\<lparr>buffer := [0, 0, 0, 31, 31, 31]\<rparr>)"
    by (simp add: to_uchar_def exact_def numeral_3_eq_3)
  from a b show ?thesis by (rule conjI)
qed

section \<open>Refraction\<close>








section \<open>Lights (light.cpp)\<close>

datatype Light =
  DirectionalLight vec3 vec3
  | PointLight vec3 vec3 real real real

text \<open>
  \<open>DirectionalLight color orientation\<close> and
  \<open>PointLight color position constantTerm linearTerm quadraticTerm\<close>.
\<close>

fun getColor :: "Light \<Rightarrow> vec3" where
  "getColor (DirectionalLight color orientation) = color"
| "getColor (PointLight color position kc kl kq) = color"










section \<open>The worker loop (RayTracer::traceImageThread)\<close>

text \<open>
  The loop \<open>for (p = id; p < w * h; p += threads)\<close>. Each round computes
  \<open>i = p / buffer_height\<close> and \<open>j = p % buffer_height\<close> with C's truncating division and
  calls \<open>tracePixel(i, j)\<close>. The model threads the tracer's state through the calls and
  records the pixels traced, in order. \<open>None\<close> stands for a loop that does not return
  (\<open>threads \<le> 0\<close>), for a division by zero and for an undefined step of \<open>tracePixel\<close>. The
  insertion of the worker's id into \<open>finishedThreads\<close> after the loop is left out.
\<close>

partial_function (option) traceImageThread_loop ::
  "(real \<Rightarrow> real) \<Rightarrow> env \<Rightarrow> int \<Rightarrow> int \<Rightarrow> int \<Rightarrow> rt_state \<Rightarrow> (int \<times> int) list
     \<Rightarrow> (rt_state \<times> (int \<times> int) list) option"
where
  "traceImageThread_loop rd E w h p st traced =
     (if p < w * h then
        (if buffer_height st = 0 then None
         else
           (let i = p sdiv buffer_height st;
                j = p smod buffer_height st
            in case tracePixel rd E st i j of
                 None \<Rightarrow> None
               | Some res \<Rightarrow>
                   traceImageThread_loop rd E w h (p + threads (snd res)) (snd res) (traced @ [(i, j)])))
      else Some (st, traced))"

definition traceImageThread ::
  "(real \<Rightarrow> real) \<Rightarrow> env \<Rightarrow> rt_state \<Rightarrow> int \<Rightarrow> int \<Rightarrow> int \<Rightarrow> (rt_state \<times> (int \<times> int) list) option" where
  "traceImageThread rd E st wid w h = traceImageThread_loop rd E w h wid st []"

text \<open>
  The claim's description of worker \<open>id\<close>: the indices \<open>p = id, id + threads, \<dots>\<close> below
  \<open>w \<sqdot> h\<close>, each mapped to the pixel \<open>(p / h, p mod h)\<close>.
\<close>

definition worker_indices :: "int \<Rightarrow> int \<Rightarrow> int \<Rightarrow> int list" where
  "worker_indices T wid n = filter (\<lambda>p. (p - wid) mod T = 0) [wid..n - 1]"

definition worker_pixels :: "int \<Rightarrow> int \<Rightarrow> int \<Rightarrow> int \<Rightarrow> (int \<times> int) list" where
  "worker_pixels T wid w h = map (\<lambda>p. (p div h, p mod h)) (worker_indices T wid (w * h))"

text \<open>
  The byte offsets of the cell of pixel \<open>(i, j)\<close> in a buffer of width \<open>w\<close>, the three bytes
  that a buffer holds there, the colour that \<open>tracePixel(i, j)\<close> computes, and the three
  bytes that it stores for a colour with components in \<open>[0, 1]\<close>.
\<close>

definition pixel_bytes :: "int \<Rightarrow> int \<Rightarrow> int \<Rightarrow> int set" where
  "pixel_bytes w i j = {(i + j * w) * 3, (i + j * w) * 3 + 1, (i + j * w) * 3 + 2}"

definition cell :: "8 word list \<Rightarrow> int \<Rightarrow> int \<Rightarrow> int \<Rightarrow> 8 word \<times> 8 word \<times> 8 word" where
  "cell b w i j =
     (b ! nat ((i + j * w) * 3), b ! (nat ((i + j * w) * 3) + 1), b ! (nat ((i + j * w) * 3) + 2))"

definition pixel_colour :: "(real \<Rightarrow> real) \<Rightarrow> env \<Rightarrow> rt_state \<Rightarrow> int \<Rightarrow> int \<Rightarrow> vec3" where
  "pixel_colour rd E st i j =
     trace E (rd (real_of_int i / real_of_int (buffer_width st)))
             (rd (real_of_int j / real_of_int (buffer_height st)))"

definition colour_bytes :: "(real \<Rightarrow> real) \<Rightarrow> vec3 \<Rightarrow> 8 word \<times> 8 word \<times> 8 word" where
  "colour_bytes rd col =
     (to_uchar \<lfloor>rd (255 * vidx col 0)\<rfloor>, to_uchar \<lfloor>rd (255 * vidx col 1)\<rfloor>,
      to_uchar \<lfloor>rd (255 * vidx col 2)\<rfloor>)"

lemma worker_indices_step:
  assumes "0 < T" "p < n"
  shows "worker_indices T p n = p # worker_indices T (p + T) n"
proof -
  have split: "[p..n - 1] = p # [p + 1..n - 1]"
    using assms by (simp add: upto_rec1)
  have none: "filter (\<lambda>q. (q - p) mod T = 0) [p + 1..min (p + T - 1) (n - 1)] = []"
  proof -
    have "(q - p) mod T \<noteq> 0" if "p + 1 \<le> q" "q \<le> p + T - 1" for q
    proof -
      have "0 < q - p" "q - p < T" using that by auto
      then show ?thesis by simp
    qed
    then show ?thesis by (auto simp: filter_empty_conv)
  qed
  have same: "(q - (p + T)) mod T = (q - p) mod T" for q
    by (metis diff_diff_eq mod_diff_right_eq mod_self diff_zero)
  show ?thesis
  proof (cases "p + T \<le> n - 1")
    case True
    then have "[p + 1..n - 1] = [p + 1..p + T - 1] @ [p + T..n - 1]"
      using assms by (simp add: upto_split1 [of "p + 1" "p + T" "n - 1"])
    moreover have "min (p + T - 1) (n - 1) = p + T - 1" using True by simp
    ultimately show ?thesis
      using none by (simp add: worker_indices_def split same)
  next
    case False
    then have "min (p + T - 1) (n - 1) = n - 1" by simp
    moreover have "[p + T..n - 1] = []" using False by simp
    ultimately show ?thesis
      using none by (simp add: worker_indices_def split)
  qed
qed

lemma worker_indices_done: "\<not> p < n \<Longrightarrow> worker_indices T p n = []"
  by (simp add: worker_indices_def)

lemma index_to_pixel:
  assumes "0 \<le> p" "p < w * h" "0 < h" "0 < (w::int)"
  shows "p sdiv h = p div h" "p smod h = p mod h" "0 \<le> p div h" "p div h < w" "0 \<le> p mod h" "p mod h < h"
proof -
  show "p sdiv h = p div h" "p smod h = p mod h"
    using assms by (simp_all add: signed_divide_int_def signed_modulo_int_def sgn_if)
  show "0 \<le> p div h" using assms by (simp add: pos_imp_zdiv_nonneg_iff)
  have "h * (p div h) = p - p mod h"
    by (simp add: minus_mod_eq_mult_div)
  moreover have "0 \<le> p mod h" using assms by simp
  ultimately have "h * (p div h) < h * w"
    using assms(2) by (simp add: mult.commute)
  then show "p div h < w"
    using assms(3) by (simp add: mult_less_cancel_left_pos)
  show "0 \<le> p mod h" "p mod h < h" using assms by simp_all
qed

lemma set_worker_indices:
  "set (worker_indices T wid n) = {p. wid \<le> p \<and> p < n \<and> (p - wid) mod T = 0}"
  by (auto simp: worker_indices_def)

lemma distinct_worker_pixels: "distinct (worker_pixels T wid w h)"
proof -
  have "inj_on (\<lambda>p. (p div h, p mod h)) A" for A :: "int set"
  proof (rule inj_onI)
    fix x y :: int
    assume "(x div h, x mod h) = (y div h, y mod h)"
    then have "h * (x div h) + x mod h = h * (y div h) + y mod h" by simp
    then show "x = y" by (simp only: mult_div_mod_eq)
  qed
  then show ?thesis
    by (simp add: worker_pixels_def worker_indices_def distinct_map)
qed

lemma worker_pixel_in_range:
  assumes "(i, j) \<in> set (worker_pixels T wid w h)" "0 \<le> wid" "0 < w" "0 < h"
  shows "0 \<le> i \<and> i < w \<and> 0 \<le> j \<and> j < h"
proof -
  from assms(1) obtain p where p: "wid \<le> p" "p < w * h" "i = p div h" "j = p mod h"
    by (auto simp: worker_pixels_def set_worker_indices)
  then have "0 \<le> p" using assms(2) by simp
  from index_to_pixel(3-6) [OF this p(2) assms(4) assms(3)] p(3,4) show ?thesis by simp
qed

lemma worker_pixel_iff:
  assumes "0 < T" "0 \<le> wid" "wid < T" "0 < w" "0 < h" "0 \<le> i" "i < w" "0 \<le> j" "j < h"
  shows "(i, j) \<in> set (worker_pixels T wid w h) \<longleftrightarrow> wid = (i * h + j) mod T"
proof
  assume "(i, j) \<in> set (worker_pixels T wid w h)"
  then obtain p where p: "wid \<le> p" "p < w * h" "(p - wid) mod T = 0" "i = p div h" "j = p mod h"
    by (auto simp: worker_pixels_def set_worker_indices)
  have "p = i * h + j" using p(4,5) by simp
  moreover have "p mod T = wid mod T"
    using p(3) by (simp add: mod_eq_dvd_iff dvd_eq_mod_eq_0)
  moreover have "wid mod T = wid" using assms(2,3) by simp
  ultimately show "wid = (i * h + j) mod T" by simp
next
  assume wid: "wid = (i * h + j) mod T"
  let ?p = "i * h + j"
  have nonneg: "0 \<le> ?p" using assms by simp
  have "i * h \<le> (w - 1) * h" using assms by (intro mult_right_mono) auto
  then have less: "?p < w * h" using assms by (simp add: algebra_simps)
  have dm: "?p div h = i" "?p mod h = j" using assms by simp_all
  have "wid \<le> ?p" unfolding wid using nonneg assms(1) by (simp add: zmod_le_nonneg_dividend)
  moreover have "(?p - wid) mod T = 0" unfolding wid by (simp add: minus_mod_eq_mult_div)
  ultimately have "?p \<in> set (worker_indices T wid (w * h))"
    using less by (simp add: set_worker_indices)
  then have "(?p div h, ?p mod h) \<in> set (worker_pixels T wid w h)"
    unfolding worker_pixels_def set_map by (rule imageI)
  then show "(i, j) \<in> set (worker_pixels T wid w h)" by (simp only: dm)
qed

lemma pixel_bytes_iff:
  assumes "0 \<le> b"
  shows "b \<in> pixel_bytes w i j \<longleftrightarrow> b div 3 = i + j * w"
  using assms by (auto simp: pixel_bytes_def)

lemma cell_of_byte:
  assumes "0 \<le> q" "q < w * h" "0 < w" "0 < h" "0 \<le> i" "i < w" "0 \<le> (j::int)"
  shows "i + j * w = q \<longleftrightarrow> i = q mod w \<and> j = q div w"
proof
  assume "i + j * w = q"
  then have q: "q = j * w + i" by simp
  show "i = q mod w \<and> j = q div w"
    unfolding q using assms by simp
next
  assume "i = q mod w \<and> j = q div w"
  then show "i + j * w = q" by simp
qed

lemma cells_disjoint:
  assumes "0 < w" "0 \<le> i" "i < w" "0 \<le> j" "0 \<le> i'" "i' < w" "0 \<le> j'"
    and "x \<in> pixel_bytes w i j" "x \<in> pixel_bytes w i' j'"
  shows "i = i' \<and> j = j'"
proof -
  have "0 \<le> (i + j * w) * 3" using assms(1,2,4) by simp
  then have "0 \<le> x" using assms(8) by (auto simp: pixel_bytes_def)
  then have "x div 3 = i + j * w" "x div 3 = i' + j' * w"
    using assms(8,9) by (simp_all add: pixel_bytes_iff)
  then have eq: "i + j * w = i' + j' * w" by simp
  then have "(i + j * w) mod w = (i' + j' * w) mod w" by simp
  then have i: "i = i'" using assms(2,3,5,6) by simp
  with eq have "j * w = j' * w" by simp
  then have "j = j'" using assms(1) by simp
  with i show ?thesis by simp
qed

lemma write3_nth:
  assumes "0 \<le> off" "nat off + 2 < length buf"
  shows "(buf[nat off := r, nat off + 1 := g, nat off + 2 := bl]) ! nat off = r"
    and "(buf[nat off := r, nat off + 1 := g, nat off + 2 := bl]) ! (nat off + 1) = g"
    and "(buf[nat off := r, nat off + 1 := g, nat off + 2 := bl]) ! (nat off + 2) = bl"
    and "\<And>n. int n \<notin> {off, off + 1, off + 2}
           \<Longrightarrow> (buf[nat off := r, nat off + 1 := g, nat off + 2 := bl]) ! n = buf ! n"
  using assms by (auto simp: nth_list_update)

lemma traceImageThread_loop_runs:
  fixes rd :: "real \<Rightarrow> real"
  assumes "0 < threads st" "buffer_width st = w" "buffer_height st = h" "0 < w" "0 < h"
    and "int (length (buffer st)) = w * h * 3" and "0 \<le> p"
    and "sceneLoaded st" and "mono rd" "rd 0 = 0" "rd 255 = 255"
  shows "\<exists>b. traceImageThread_loop rd E w h p st traced
            = Some (st\<lparr>buffer := b\<rparr>, traced @ map (\<lambda>q. (q div h, q mod h)) (worker_indices (threads st) p (w * h)))
          \<and> length b = length (buffer st)
          \<and> (\<forall>q \<in> set (worker_indices (threads st) p (w * h)).
                cell b w (q div h) (q mod h) = colour_bytes rd (pixel_colour rd E st (q div h) (q mod h)))
          \<and> (\<forall>n < length b.
                (\<forall>q \<in> set (worker_indices (threads st) p (w * h)). int n \<notin> pixel_bytes w (q div h) (q mod h))
                \<longrightarrow> b ! n = buffer st ! n)"
  using assms
proof (induction "nat (w * h - p)" arbitrary: p st traced rule: less_induct)
  case less
  show ?case
  proof (cases "p < w * h")
    case False
    have "st\<lparr>buffer := buffer st\<rparr> = st" by simp
    with False show ?thesis
      by (subst traceImageThread_loop.simps) (auto simp: worker_indices_done intro!: exI [of _ "buffer st"])
  next
    case True
    let ?T = "threads st"
    let ?i = "p div h" and ?j = "p mod h"
    let ?off = "(?i + ?j * w) * 3"
    note ip = index_to_pixel [OF less.prems(7) True less.prems(5) less.prems(4)]
    have inim: "0 \<le> ?i" "?i < buffer_width st" "0 \<le> ?j" "?j < buffer_height st"
      "int (length (buffer st)) = buffer_width st * buffer_height st * 3"
      using ip less.prems(2,3,6) by simp_all
    from tracePixel_loaded [OF inim less.prems(8-11), of E]
    obtain cr cg cb where col: "pixel_colour rd E st ?i ?j = (cr, cg, cb)"
      and tp: "tracePixel rd E st ?i ?j = Some ((cr, cg, cb), st\<lparr>buffer := (buffer st)
             [nat ?off := to_uchar \<lfloor>rd (255 * cr)\<rfloor>,
              nat ?off + 1 := to_uchar \<lfloor>rd (255 * cg)\<rfloor>,
              nat ?off + 2 := to_uchar \<lfloor>rd (255 * cb)\<rfloor>]\<rparr>)"
      unfolding pixel_colour_def less.prems(2) by blast
    define b1 where "b1 = (buffer st)
             [nat ?off := to_uchar \<lfloor>rd (255 * cr)\<rfloor>,
              nat ?off + 1 := to_uchar \<lfloor>rd (255 * cg)\<rfloor>,
              nat ?off + 2 := to_uchar \<lfloor>rd (255 * cb)\<rfloor>]"
    let ?st = "st\<lparr>buffer := b1\<rparr>"
    have lb: "length b1 = length (buffer st)"
      by (simp add: b1_def)
    have offr: "0 \<le> ?off" "nat ?off + 2 < length (buffer st)"
      using offset_in_range [OF ip(3,4,5,6)] less.prems(6) by auto
    note w3 = write3_nth [OF offr, where r = "to_uchar \<lfloor>rd (255 * cr)\<rfloor>"
        and g = "to_uchar \<lfloor>rd (255 * cg)\<rfloor>" and bl = "to_uchar \<lfloor>rd (255 * cb)\<rfloor>", folded b1_def]
    have pc: "pixel_colour rd E ?st i j = pixel_colour rd E st i j" for i j
      by (simp add: pixel_colour_def)
    have "\<exists>b. traceImageThread_loop rd E w h (p + ?T) ?st (traced @ [(?i, ?j)])
            = Some (?st\<lparr>buffer := b\<rparr>, (traced @ [(?i, ?j)]) @
                 map (\<lambda>q. (q div h, q mod h)) (worker_indices (threads ?st) (p + ?T) (w * h)))
          \<and> length b = length (buffer ?st)
          \<and> (\<forall>q \<in> set (worker_indices (threads ?st) (p + ?T) (w * h)).
                cell b w (q div h) (q mod h) = colour_bytes rd (pixel_colour rd E ?st (q div h) (q mod h)))
          \<and> (\<forall>n < length b.
                (\<forall>q \<in> set (worker_indices (threads ?st) (p + ?T) (w * h)). int n \<notin> pixel_bytes w (q div h) (q mod h))
                \<longrightarrow> b ! n = buffer ?st ! n)"
      using less.prems True lb
      by (intro less.hyps) auto
    then obtain b where rec: "traceImageThread_loop rd E w h (p + ?T) ?st (traced @ [(?i, ?j)])
            = Some (st\<lparr>buffer := b\<rparr>, traced @ (?i, ?j) #
                 map (\<lambda>q. (q div h, q mod h)) (worker_indices ?T (p + ?T) (w * h)))"
      and lb': "length b = length (buffer st)"
      and later: "\<forall>q \<in> set (worker_indices ?T (p + ?T) (w * h)).
                cell b w (q div h) (q mod h) = colour_bytes rd (pixel_colour rd E st (q div h) (q mod h))"
      and rest: "\<forall>n < length b.
                (\<forall>q \<in> set (worker_indices ?T (p + ?T) (w * h)). int n \<notin> pixel_bytes w (q div h) (q mod h))
                \<longrightarrow> b ! n = b1 ! n"
      using lb pc by auto
    have run: "traceImageThread_loop rd E w h p st traced
            = traceImageThread_loop rd E w h (p + ?T) ?st (traced @ [(?i, ?j)])"
      using True less.prems(3,5) ip(1,2) tp
      by (subst traceImageThread_loop.simps) (simp add: Let_def b1_def)
    have stepq: "worker_indices ?T p (w * h) = p # worker_indices ?T (p + ?T) (w * h)"
      by (rule worker_indices_step [OF less.prems(1) True])
    have apart: "int n \<notin> pixel_bytes w (q div h) (q mod h)"
      if n: "int n \<in> pixel_bytes w ?i ?j" and q: "q \<in> set (worker_indices ?T (p + ?T) (w * h))" for n q
    proof
      assume "int n \<in> pixel_bytes w (q div h) (q mod h)"
      have qr: "p < q" "q < w * h"
        using q less.prems(1) by (auto simp: set_worker_indices)
      then have "0 \<le> q" using less.prems(7) by simp
      note iq = index_to_pixel [OF this qr(2) less.prems(5) less.prems(4)]
      from cells_disjoint [OF less.prems(4) ip(3,4,5) iq(3,4,5) n \<open>int n \<in> pixel_bytes w (q div h) (q mod h)\<close>]
      have "p div h = q div h" "p mod h = q mod h" by simp_all
      then have "h * (p div h) + p mod h = h * (q div h) + q mod h" by simp
      then have "p = q" by (simp only: mult_div_mod_eq)
      with qr(1) show False by simp
    qed
    have mine: "pixel_bytes w ?i ?j = {?off, ?off + 1, ?off + 2}"
      by (simp add: pixel_bytes_def)
    have in3: "int (nat ?off) \<in> pixel_bytes w ?i ?j" "int (nat ?off + 1) \<in> pixel_bytes w ?i ?j"
      "int (nat ?off + 2) \<in> pixel_bytes w ?i ?j"
      using offr(1) by (simp_all add: mine)
    have keep: "b ! n = b1 ! n" if "n < length b" "int n \<in> pixel_bytes w ?i ?j" for n
      using rest that apart by blast
    have here: "cell b w ?i ?j = colour_bytes rd (pixel_colour rd E st ?i ?j)"
      using keep [OF _ in3(1)] keep [OF _ in3(2)] keep [OF _ in3(3)] offr(2) lb' w3(1-3)
      by (simp add: cell_def colour_bytes_def col)
    have cells: "\<forall>q \<in> set (worker_indices ?T p (w * h)).
                cell b w (q div h) (q mod h) = colour_bytes rd (pixel_colour rd E st (q div h) (q mod h))"
      unfolding stepq using here later by simp
    have others: "\<forall>n < length b.
                (\<forall>q \<in> set (worker_indices ?T p (w * h)). int n \<notin> pixel_bytes w (q div h) (q mod h))
                \<longrightarrow> b ! n = buffer st ! n"
    proof (intro allI impI)
      fix n
      assume n: "n < length b"
        and out: "\<forall>q \<in> set (worker_indices ?T p (w * h)). int n \<notin> pixel_bytes w (q div h) (q mod h)"
      from out have o1: "int n \<notin> {?off, ?off + 1, ?off + 2}"
        and o2: "\<forall>q \<in> set (worker_indices ?T (p + ?T) (w * h)). int n \<notin> pixel_bytes w (q div h) (q mod h)"
        unfolding stepq by (simp_all add: mine)
      from rest n o2 have "b ! n = b1 ! n" by blast
      also have "\<dots> = buffer st ! n" by (rule w3(4) [OF o1])
      finally show "b ! n = buffer st ! n" .
    qed
    from run rec lb' cells others show ?thesis
      unfolding stepq by auto
  qed
qed

text \<open>
  A loaded tracer with a \<open>2 \<times> 2\<close> buffer and two workers. With the grey scene the quotients
  \<open>0 / 2\<close> and \<open>1 / 2\<close> and the product \<open>255 \<sqdot> 1/8\<close> are exact in double arithmetic.
\<close>

definition four_pixels :: rt_state where
  "four_pixels = \<lparr>sceneLoaded = True, buffer = [0, 0, 0, 0, 0, 0, 0, 0, 0, 0, 0, 0],
     buffer_width = 2, buffer_height = 2, threads = 2\<rparr>"

text \<open>
  Claim C9. After \<open>traceSetup(w, h)\<close> (so \<open>buffer_width = w\<close>, \<open>buffer_height = h\<close>, a buffer
  of \<open>w \<sqdot> h \<sqdot> 3\<close> bytes), with a scene loaded, at least one worker, and an image small enough
  for the \<open>int\<close> arithmetic of the loop and of the byte offsets not to overflow: worker \<open>id\<close>
  returns,
  having traced exactly the pixels \<open>(p / h, p mod h)\<close> for \<open>p = id, id + threads, \<dots> < w \<sqdot> h\<close>,
  each once and each inside the image; the buffer it leaves holds, in the cell of each of
  these pixels, the bytes of the colour traced for the pixel, and is unchanged at every byte
  outside these cells; every pixel of the image is traced by exactly one worker; and every
  byte of the buffer lies in the cell of a pixel traced by exactly one worker. The bytes
  stored use that rounding is monotone and exact on 0 and 255.
\<close>

theorem traceImageThread_partition:
  fixes rd :: "real \<Rightarrow> real"
  assumes "0 < threads st" "buffer_width st = w" "buffer_height st = h" "0 < w" "0 < h"
    and "int (length (buffer st)) = w * h * 3"
    and "sceneLoaded st" and "mono rd" "rd 0 = 0" "rd 255 = 255"
    and "w * h * 3 < 2 ^ 31" "w * h + threads st < 2 ^ 31"
  shows "(\<forall>wid. 0 \<le> wid \<and> wid < threads st \<longrightarrow>
            (\<exists>b. traceImageThread rd E st wid w h = Some (st\<lparr>buffer := b\<rparr>, worker_pixels (threads st) wid w h) \<and>
                 length b = length (buffer st) \<and>
                 (\<forall>(i, j) \<in> set (worker_pixels (threads st) wid w h).
                    cell b w i j = colour_bytes rd (pixel_colour rd E st i j)) \<and>
                 (\<forall>n < length b.
                    (\<forall>(i, j) \<in> set (worker_pixels (threads st) wid w h). int n \<notin> pixel_bytes w i j)
                    \<longrightarrow> b ! n = buffer st ! n)) \<and>
            distinct (worker_pixels (threads st) wid w h) \<and>
            (\<forall>(i, j) \<in> set (worker_pixels (threads st) wid w h). 0 \<le> i \<and> i < w \<and> 0 \<le> j \<and> j < h)) \<and>
         (\<forall>i j. 0 \<le> i \<and> i < w \<and> 0 \<le> j \<and> j < h \<longrightarrow>
            (\<exists>!wid. 0 \<le> wid \<and> wid < threads st \<and> (i, j) \<in> set (worker_pixels (threads st) wid w h))) \<and>
         (\<forall>b. 0 \<le> b \<and> b < w * h * 3 \<longrightarrow>
            (\<exists>!wid. 0 \<le> wid \<and> wid < threads st \<and>
               (\<exists>(i, j) \<in> set (worker_pixels (threads st) wid w h). b \<in> pixel_bytes w i j)))"
proof (intro conjI allI impI)
  fix wid
  assume wid: "0 \<le> wid \<and> wid < threads st"
  then have "0 \<le> wid" by simp
  from traceImageThread_loop_runs [OF assms(1-6) this assms(7-10), of E "[]"]
  show "\<exists>b. traceImageThread rd E st wid w h = Some (st\<lparr>buffer := b\<rparr>, worker_pixels (threads st) wid w h) \<and>
                 length b = length (buffer st) \<and>
                 (\<forall>(i, j) \<in> set (worker_pixels (threads st) wid w h).
                    cell b w i j = colour_bytes rd (pixel_colour rd E st i j)) \<and>
                 (\<forall>n < length b.
                    (\<forall>(i, j) \<in> set (worker_pixels (threads st) wid w h). int n \<notin> pixel_bytes w i j)
                    \<longrightarrow> b ! n = buffer st ! n)"
    by (simp add: traceImageThread_def worker_pixels_def)
  show "distinct (worker_pixels (threads st) wid w h)"
    by (rule distinct_worker_pixels)
  show "\<forall>(i, j) \<in> set (worker_pixels (threads st) wid w h). 0 \<le> i \<and> i < w \<and> 0 \<le> j \<and> j < h"
    using worker_pixel_in_range [of _ _ "threads st" wid w h] wid assms(4,5) by auto
next
  fix i j
  assume ij: "0 \<le> i \<and> i < w \<and> 0 \<le> j \<and> j < h"
  have iff: "(i, j) \<in> set (worker_pixels (threads st) wid w h) \<longleftrightarrow> wid = (i * h + j) mod threads st"
    if "0 \<le> wid" "wid < threads st" for wid
    using worker_pixel_iff [OF assms(1) that assms(4,5)] ij by simp
  have rng: "0 \<le> (i * h + j) mod threads st" "(i * h + j) mod threads st < threads st"
    using assms(1) by simp_all
  show "\<exists>!wid. 0 \<le> wid \<and> wid < threads st \<and> (i, j) \<in> set (worker_pixels (threads st) wid w h)"
  proof (rule ex1I [of _ "(i * h + j) mod threads st"])
    show "0 \<le> (i * h + j) mod threads st \<and> (i * h + j) mod threads st < threads st \<and>
          (i, j) \<in> set (worker_pixels (threads st) ((i * h + j) mod threads st) w h)"
      using rng iff [OF rng] by simp
  next
    fix wid
    assume "0 \<le> wid \<and> wid < threads st \<and> (i, j) \<in> set (worker_pixels (threads st) wid w h)"
    then show "wid = (i * h + j) mod threads st"
      using iff [of wid] by simp
  qed
next
  fix b
  assume b: "0 \<le> b \<and> b < w * h * 3"
  define q where "q = b div 3"
  define i0 where "i0 = q mod w"
  define j0 where "j0 = q div w"
  have q: "0 \<le> q" "q < h * w"
    using b by (auto simp: q_def mult.commute)
  have in0: "0 \<le> i0" "i0 < w" "0 \<le> j0" "j0 < h"
    using index_to_pixel(3-6) [OF q assms(4,5)] by (simp_all add: i0_def j0_def)
  have owner: "(\<exists>(i, j) \<in> set (worker_pixels (threads st) wid w h). b \<in> pixel_bytes w i j)
                 \<longleftrightarrow> wid = (i0 * h + j0) mod threads st"
    if wid: "0 \<le> wid" "wid < threads st" for wid
  proof -
    have "b \<in> pixel_bytes w i j \<longleftrightarrow> (i, j) = (i0, j0)"
      if "(i, j) \<in> set (worker_pixels (threads st) wid w h)" for i j
    proof -
      have r: "0 \<le> i \<and> i < w \<and> 0 \<le> j \<and> j < h"
        using worker_pixel_in_range [OF that wid(1) assms(4,5)] .
      have "q < w * h" using q(2) by (simp add: mult.commute)
      from cell_of_byte [OF q(1) this assms(4,5), of i j] r
      have "i + j * w = q \<longleftrightarrow> i = i0 \<and> j = j0"
        by (simp add: i0_def j0_def)
      then show ?thesis
        using b by (auto simp: pixel_bytes_iff q_def)
    qed
    then have "(\<exists>(i, j) \<in> set (worker_pixels (threads st) wid w h). b \<in> pixel_bytes w i j)
                 \<longleftrightarrow> (i0, j0) \<in> set (worker_pixels (threads st) wid w h)"
      by auto
    then show ?thesis
      using worker_pixel_iff [OF assms(1) wid assms(4,5) in0] by simp
  qed
  have rng: "0 \<le> (i0 * h + j0) mod threads st" "(i0 * h + j0) mod threads st < threads st"
    using assms(1) by simp_all
  show "\<exists>!wid. 0 \<le> wid \<and> wid < threads st \<and>
               (\<exists>(i, j) \<in> set (worker_pixels (threads st) wid w h). b \<in> pixel_bytes w i j)"
  proof (rule ex1I [of _ "(i0 * h + j0) mod threads st"])
    show "0 \<le> (i0 * h + j0) mod threads st \<and> (i0 * h + j0) mod threads st < threads st \<and>
          (\<exists>(i, j) \<in> set (worker_pixels (threads st) ((i0 * h + j0) mod threads st) w h). b \<in> pixel_bytes w i j)"
      using rng owner [OF rng] by simp
  next
    fix wid
    assume "0 \<le> wid \<and> wid < threads st \<and>
            (\<exists>(i, j) \<in> set (worker_pixels (threads st) wid w h). b \<in> pixel_bytes w i j)"
    then show "wid = (i0 * h + j0) mod threads st"
      using owner [of wid] by simp
  qed
qed

lemma list12:
  assumes "length (b :: 'a list) = 12"
  shows "b = [b ! 0, b ! 1, b ! 2, b ! 3, b ! 4, b ! 5, b ! 6, b ! 7, b ! 8, b ! 9, b ! 10, b ! 11]"
proof -
  from assms obtain x0 x1 x2 x3 x4 x5 x6 x7 x8 x9 x10 x11
    where "b = [x0, x1, x2, x3, x4, x5, x6, x7, x8, x9, x10, x11]"
    by (auto simp: length_Suc_conv eval_nat_numeral)
  then show ?thesis by simp
qed

lemma grey_bytes: "colour_bytes exact (pixel_colour exact grey_env st i j) = (31, 31, 31)"
  by (simp add: colour_bytes_def pixel_colour_def trace_grey exact_def to_uchar_def)

theorem traceImageThread_partition_witness:
  "traceImageThread exact grey_env four_pixels 0 2 2
     = Some (four_pixels\<lparr>buffer := [31, 31, 31, 31, 31, 31, 0, 0, 0, 0, 0, 0]\<rparr>, [(0, 0), (1, 0)]) \<and>
   traceImageThread exact grey_env four_pixels 1 2 2
     = Some (four_pixels\<lparr>buffer := [0, 0, 0, 0, 0, 0, 31, 31, 31, 31, 31, 31]\<rparr>, [(0, 1), (1, 1)]) \<and>
   (\<exists>!wid. 0 \<le> wid \<and> wid < 2 \<and> (1, 0) \<in> set (worker_pixels 2 wid 2 2)) \<and>
   (\<exists>!wid. 0 \<le> wid \<and> wid < 2 \<and> (\<exists>(i, j) \<in> set (worker_pixels 2 wid 2 2). 7 \<in> pixel_bytes 2 i j))"
proof -
  have h: "0 < threads four_pixels" "buffer_width four_pixels = 2" "buffer_height four_pixels = 2"
    "(0::int) < 2" "(0::int) < 2" "int (length (buffer four_pixels)) = 2 * 2 * 3"
    "sceneLoaded four_pixels"
    by (simp_all add: four_pixels_def)
  have small: "(2::int) * 2 * 3 < 2 ^ 31" "2 * 2 + threads four_pixels < 2 ^ 31"
    by (simp_all add: four_pixels_def)
  have t: "threads four_pixels = 2"
    by (simp add: four_pixels_def)
  have buf: "buffer four_pixels = [0, 0, 0, 0, 0, 0, 0, 0, 0, 0, 0, 0]"
    by (simp add: four_pixels_def)
  have w0: "worker_pixels 2 0 2 2 = [(0, 0), (1, 0)]"
    by (simp add: worker_pixels_def worker_indices_def upto_rec1)
  have w1: "worker_pixels 2 1 2 2 = [(0, 1), (1, 1)]"
    by (simp add: worker_pixels_def worker_indices_def upto_rec1)
  note inst = traceImageThread_partition [OF h exact_rounding small, of grey_env, unfolded t]
  from inst have "\<exists>b. traceImageThread exact grey_env four_pixels 0 2 2
         = Some (four_pixels\<lparr>buffer := b\<rparr>, worker_pixels 2 0 2 2) \<and>
       length b = length (buffer four_pixels) \<and>
       (\<forall>(i, j) \<in> set (worker_pixels 2 0 2 2).
           cell b 2 i j = colour_bytes exact (pixel_colour exact grey_env four_pixels i j)) \<and>
       (\<forall>n < length b. (\<forall>(i, j) \<in> set (worker_pixels 2 0 2 2). int n \<notin> pixel_bytes 2 i j)
           \<longrightarrow> b ! n = buffer four_pixels ! n)"
    by simp
  then obtain b0 where r0: "traceImageThread exact grey_env four_pixels 0 2 2
         = Some (four_pixels\<lparr>buffer := b0\<rparr>, [(0, 0), (1, 0)])"
    and l0: "length b0 = 12"
    and c0: "cell b0 2 0 0 = (31, 31, 31)" "cell b0 2 1 0 = (31, 31, 31)"
    and k0: "\<forall>n < 12. int n \<notin> pixel_bytes 2 0 0 \<and> int n \<notin> pixel_bytes 2 1 0 \<longrightarrow> b0 ! n = [0, 0, 0, 0, 0, 0, 0, 0, 0, 0, 0, 0 :: 8 word] ! n"
    unfolding w0 grey_bytes buf by auto
  have "b0 ! 6 = 0" "b0 ! 7 = 0" "b0 ! 8 = 0" "b0 ! 9 = 0" "b0 ! 10 = 0" "b0 ! 11 = 0"
    using k0 [rule_format, of 6] k0 [rule_format, of 7] k0 [rule_format, of 8]
      k0 [rule_format, of 9] k0 [rule_format, of 10] k0 [rule_format, of 11]
    by (simp_all add: pixel_bytes_def)
  moreover have "b0 ! 0 = 31" "b0 ! 1 = 31" "b0 ! 2 = 31" "b0 ! 3 = 31" "b0 ! 4 = 31" "b0 ! 5 = 31"
    using c0 by (simp_all add: cell_def eval_nat_numeral)
  ultimately have "b0 = [31, 31, 31, 31, 31, 31, 0, 0, 0, 0, 0, 0]"
    using list12 [OF l0] by simp
  with r0 have a: "traceImageThread exact grey_env four_pixels 0 2 2
     = Some (four_pixels\<lparr>buffer := [31, 31, 31, 31, 31, 31, 0, 0, 0, 0, 0, 0]\<rparr>, [(0, 0), (1, 0)])"
    by simp
  from inst have "\<exists>b. traceImageThread exact grey_env four_pixels 1 2 2
         = Some (four_pixels\<lparr>buffer := b\<rparr>, worker_pixels 2 1 2 2) \<and>
       length b = length (buffer four_pixels) \<and>
       (\<forall>(i, j) \<in> set (worker_pixels 2 1 2 2).
           cell b 2 i j = colour_bytes exact (pixel_colour exact grey_env four_pixels i j)) \<and>
       (\<forall>n < length b. (\<forall>(i, j) \<in> set (worker_pixels 2 1 2 2). int n \<notin> pixel_bytes 2 i j)
           \<longrightarrow> b ! n = buffer four_pixels ! n)"
    by simp
  then obtain b1 where r1: "traceImageThread exact grey_env four_pixels 1 2 2
         = Some (four_pixels\<lparr>buffer := b1\<rparr>, [(0, 1), (1, 1)])"
    and l1: "length b1 = 12"
    and c1: "cell b1 2 0 1 = (31, 31, 31)" "cell b1 2 1 1 = (31, 31, 31)"
    and k1: "\<forall>n < 12. int n \<notin> pixel_bytes 2 0 1 \<and> int n \<notin> pixel_bytes 2 1 1 \<longrightarrow> b1 ! n = [0, 0, 0, 0, 0, 0, 0, 0, 0, 0, 0, 0 :: 8 word] ! n"
    unfolding w1 grey_bytes buf by auto
  have "b1 ! 0 = 0" "b1 ! 1 = 0" "b1 ! 2 = 0" "b1 ! 3 = 0" "b1 ! 4 = 0" "b1 ! 5 = 0"
    using k1 [rule_format, of 0] k1 [rule_format, of 1] k1 [rule_format, of 2]
      k1 [rule_format, of 3] k1 [rule_format, of 4] k1 [rule_format, of 5]
    by (simp_all add: pixel_bytes_def)
  moreover have "b1 ! 6 = 31" "b1 ! 7 = 31" "b1 ! 8 = 31" "b1 ! 9 = 31" "b1 ! 10 = 31" "b1 ! 11 = 31"
    using c1 by (simp_all add: cell_def eval_nat_numeral)
  ultimately have "b1 = [0, 0, 0, 0, 0, 0, 31, 31, 31, 31, 31, 31]"
    using list12 [OF l1] by simp
  with r1 have b: "traceImageThread exact grey_env four_pixels 1 2 2
     = Some (four_pixels\<lparr>buffer := [0, 0, 0, 0, 0, 0, 31, 31, 31, 31, 31, 31]\<rparr>, [(0, 1), (1, 1)])"
    by simp
  from inst have c: "\<exists>!wid. 0 \<le> wid \<and> wid < 2 \<and> (1, 0) \<in> set (worker_pixels 2 wid 2 2)"
    by simp
  from inst have d: "\<exists>!wid. 0 \<le> wid \<and> wid < 2 \<and> (\<exists>(i, j) \<in> set (worker_pixels 2 wid 2 2). 7 \<in> pixel_bytes 2 i j)"
    by simp
  from a b c d show ?thesis
    by blast
qed

section \<open>Bounding boxes, geometry and the KD-tree (kdTree.h)\<close>

record BoundingBox =
  bmin :: vec3
  bmax :: vec3

definition setMin :: "BoundingBox \<Rightarrow> int \<Rightarrow> real \<Rightarrow> BoundingBox" where
  "setMin b a v = b\<lparr>bmin := vset (bmin b) a v\<rparr>"

definition setMax :: "BoundingBox \<Rightarrow> int \<Rightarrow> real \<Rightarrow> BoundingBox" where
  "setMax b a v = b\<lparr>bmax := vset (bmax b) a v\<rparr>"

text \<open>
  \<open>BoundingBox::area\<close> is declared in bbox.h, which is not among the sources. The
  construction of the tree takes it as a parameter \<open>A\<close>: the double that the call returns
  for a box. Modelled from the spec: the specification gives the surface area
  \<open>2 \<sqdot> (ex \<sqdot> ey + ey \<sqdot> ez + ex \<sqdot> ez)\<close> with \<open>e = max - min\<close>; \<open>area\<close> is that formula
  without rounding, and instantiates \<open>A\<close> where a statement is evaluated on boxes with small
  integer corners, for which every operation of the formula is exact.
\<close>

definition area :: "BoundingBox \<Rightarrow> real" where
  "area b = (case vsub (bmax b) (bmin b) of (ex, ey, ez) \<Rightarrow> 2 * (ex * ey + ey * ez + ex * ez))"

text \<open>
  \<open>BoundingBox::intersect(r, t_min, t_max)\<close> is not among the sources either. Both call
  sites in kdTree.h discard its boolean result and keep only what it does to \<open>t_min\<close> and
  \<open>t_max\<close>, so the traversal takes that effect as a parameter: a function from the box, the
  ray and the interval on entry to the interval on exit.
\<close>

type_synonym clip = "BoundingBox \<Rightarrow> ray \<Rightarrow> real \<times> real \<Rightarrow> real \<times> real"

text \<open>
  A scene object as the tree sees it: \<open>getBoundingBox()\<close>, \<open>intersect(r, i)\<close> (the hit
  record when it returns true) and \<open>getNormal()\<close>.
\<close>

record Geometry =
  getBoundingBox :: BoundingBox
  geom_intersect :: "ray \<Rightarrow> isect option"
  getNormal :: vec3

record Plane =
  axis :: int
  position :: real
  leftCount :: int
  rightCount :: int
  leftBBoxArea :: real
  rightBBoxArea :: real
  leftBBox :: BoundingBox
  rightBBox :: BoundingBox

datatype Node =
  SplitNode int real BoundingBox Node Node
  | LeafNode "Geometry list"

text \<open>\<open>SplitNode axis pos bbox left right\<close> and \<open>LeafNode objList\<close>.\<close>

subsection \<open>Traversal\<close>

text \<open>
  The loop of \<open>LeafNode::findIntersection\<close>. The state is \<open>(found, i, t_min, t_max)\<close>:
  \<open>t_min\<close> and \<open>t_max\<close> are references that the bounding-box test of every object rewrites.
\<close>

fun leaf_loop :: "clip \<Rightarrow> ray \<Rightarrow> Geometry list \<Rightarrow> bool \<times> isect \<times> real \<times> real \<Rightarrow> bool \<times> isect \<times> real \<times> real" where
  "leaf_loop bbi r [] s = s"
| "leaf_loop bbi r (obj # objs) (found, i, t_min, t_max) =
     (case bbi (getBoundingBox obj) r (t_min, t_max) of (t_min', t_max') \<Rightarrow>
        (case geom_intersect obj r of
           Some cur \<Rightarrow>
             if isect_t cur < isect_t i \<and> isect_t cur \<ge> t_min' \<and> isect_t cur \<le> t_max'
             then leaf_loop bbi r objs (True, cur, t_min', t_max')
             else leaf_loop bbi r objs (found, i, t_min', t_max')
         | None \<Rightarrow> leaf_loop bbi r objs (found, i, t_min', t_max')))"

text \<open>
  \<open>findIntersection(r, i, t_min, t_max)\<close> of both node classes. The first argument is
  \<open>RAY_EPSILON\<close>. The result is the boolean returned with the values left in \<open>i\<close>, \<open>t_min\<close>
  and \<open>t_max\<close>.
\<close>

fun findIntersection :: "real \<Rightarrow> clip \<Rightarrow> Node \<Rightarrow> ray \<Rightarrow> isect \<Rightarrow> real \<Rightarrow> real \<Rightarrow> bool \<times> isect \<times> real \<times> real" where
  "findIntersection eps bbi (LeafNode objList) r i t_min t_max =
     leaf_loop bbi r objList (False, i\<lparr>isect_t := 10 ^ 13\<rparr>, t_min, t_max)"
| "findIntersection eps bbi (SplitNode ax pos bbox left right) r i t_min t_max =
     (case bbi bbox r (t_min, t_max) of (t_min1, t_max1) \<Rightarrow>
        (let parallel = (vidx (direction r) ax < eps \<and> vidx (direction r) ax > - eps);
             pos_min = (if parallel then vidx (ray_at r t_min1) ax + 1 / 10 ^ 6 else vidx (ray_at r t_min1) ax);
             pos_max = (if parallel then vidx (ray_at r t_max1) ax + 1 / 10 ^ 6 else vidx (ray_at r t_max1) ax)
         in if pos > pos_min \<and> pos > pos_max then findIntersection eps bbi left r i t_min1 t_max1
            else if pos < pos_min \<and> pos < pos_max then findIntersection eps bbi right r i t_min1 t_max1
            else (case findIntersection eps bbi left r i t_min1 t_max1 of
                    (found, i1, t_min2, t_max2) \<Rightarrow>
                      if found then (True, i1, t_min2, t_max2)
                      else findIntersection eps bbi right r i1 t_min2 t_max2)))"

text \<open>\<open>KdTree::intersect\<close> on a tree that has been built.\<close>

definition kd_intersect :: "real \<Rightarrow> clip \<Rightarrow> Node \<Rightarrow> ray \<Rightarrow> isect \<Rightarrow> real \<Rightarrow> real \<Rightarrow> bool \<times> isect \<times> real \<times> real" where
  "kd_intersect eps bbi tree r i t_min t_max = findIntersection eps bbi tree r i t_min t_max"

subsection \<open>Construction\<close>

definition obj_min :: "Geometry \<Rightarrow> int \<Rightarrow> real" where
  "obj_min obj a = vidx (bmin (getBoundingBox obj)) a"

definition obj_max :: "Geometry \<Rightarrow> int \<Rightarrow> real" where
  "obj_max obj a = vidx (bmax (getBoundingBox obj)) a"

text \<open>\<open>countP\<close>: both counters run over the whole list, the flag picks one.\<close>

fun countP_loop :: "Geometry list \<Rightarrow> Plane \<Rightarrow> int \<times> int \<Rightarrow> int \<times> int" where
  "countP_loop [] plane c = c"
| "countP_loop (obj # objs) plane (countL, countR) =
     countP_loop objs plane
       (if obj_min obj (axis plane) < position plane then countL + 1 else countL,
        if obj_max obj (axis plane) > position plane then countR + 1 else countR)"

definition countP :: "Geometry list \<Rightarrow> Plane \<Rightarrow> bool \<Rightarrow> int" where
  "countP objList plane left =
     (case countP_loop objList plane (0, 0) of (countL, countR) \<Rightarrow> if left then countL else countR)"

text \<open>
  The first loop of \<open>findBestPlane\<close>. \<open>Plane p1; Plane p2;\<close> are default-initialised, so
  the fields that are not assigned hold indeterminate values; \<open>u\<close> stands for such a plane.
\<close>

definition candidate :: "Plane \<Rightarrow> BoundingBox \<Rightarrow> int \<Rightarrow> real \<Rightarrow> Plane" where
  "candidate u bbox a pos =
     u\<lparr>position := pos, axis := a,
       leftBBox := setMax \<lparr>bmin = bmin bbox, bmax = bmax bbox\<rparr> a pos,
       rightBBox := setMin \<lparr>bmin = bmin bbox, bmax = bmax bbox\<rparr> a pos\<rparr>"

definition planeList :: "Plane \<Rightarrow> Geometry list \<Rightarrow> BoundingBox \<Rightarrow> Plane list" where
  "planeList u objList bbox =
     concat (map (\<lambda>a. concat (map (\<lambda>obj. [candidate u bbox a (obj_min obj a),
                                             candidate u bbox a (obj_max obj a)]) objList))
                 [0, 1, 2])"

text \<open>The body of the second loop up to the cost \<open>s\<close>.\<close>

definition fill_plane :: "(BoundingBox \<Rightarrow> real) \<Rightarrow> Geometry list \<Rightarrow> Plane \<Rightarrow> Plane" where
  "fill_plane A objList q =
     (let plane = q;
          plane = plane\<lparr>leftCount := countP objList plane True\<rparr>;
          plane = plane\<lparr>leftBBoxArea := A (leftBBox plane)\<rparr>;
          plane = plane\<lparr>rightCount := countP objList plane False\<rparr>;
          plane = plane\<lparr>rightBBoxArea := A (rightBBox plane)\<rparr>
      in plane)"

text \<open>
  The cost \<open>s\<close> is a double expression: the two counts are converted to double, which is
  exact, and each of the two products, the sum and the quotient is rounded, in this order
  (a product and the sum are not fused into one operation).
\<close>

definition plane_cost :: "(real \<Rightarrow> real) \<Rightarrow> (BoundingBox \<Rightarrow> real) \<Rightarrow> BoundingBox \<Rightarrow> Plane \<Rightarrow> real" where
  "plane_cost rd A bbox plane =
     rd (rd (rd (real_of_int (leftCount plane) * leftBBoxArea plane)
             + rd (real_of_int (rightCount plane) * rightBBoxArea plane)) / A bbox)"

fun bestPlane_loop ::
  "(real \<Rightarrow> real) \<Rightarrow> (BoundingBox \<Rightarrow> real) \<Rightarrow> Geometry list \<Rightarrow> BoundingBox \<Rightarrow> Plane list
     \<Rightarrow> real \<times> Plane \<Rightarrow> real \<times> Plane" where
  "bestPlane_loop rd A objList bbox [] acc = acc"
| "bestPlane_loop rd A objList bbox (q # qs) (minS, bestPlane) =
     (let plane = fill_plane A objList q;
          s = plane_cost rd A bbox plane
      in if s < minS then bestPlane_loop rd A objList bbox qs (s, plane)
         else bestPlane_loop rd A objList bbox qs (minS, bestPlane))"

text \<open>
  The literal \<open>1e100\<close> of \<open>double minS = 1e100\<close> is the double nearest to \<open>10\<^sup>1\<^sup>0\<^sup>0\<close>, which is
  \<open>5147557589468029 \<sqdot> 2\<^sup>2\<^sup>8\<^sup>0\<close>, a little above \<open>10\<^sup>1\<^sup>0\<^sup>0\<close>.
\<close>

definition double_1e100 :: real where
  "double_1e100 = 5147557589468029 * 2 ^ 280"

text \<open>\<open>findBestPlane\<close>; \<open>bestPlane\<close> too starts out default-initialised.\<close>

definition findBestPlane ::
  "(real \<Rightarrow> real) \<Rightarrow> (BoundingBox \<Rightarrow> real) \<Rightarrow> Plane \<Rightarrow> Geometry list \<Rightarrow> BoundingBox \<Rightarrow> Plane" where
  "findBestPlane rd A u objList bbox =
     snd (bestPlane_loop rd A objList bbox (planeList u objList bbox) (double_1e100, u))"

text \<open>
  The routing loop of \<open>buildTreeHelper\<close>, lines 151 to 166: \<open>route_step\<close> is its body,
  with \<open>emplace_back\<close> appending to the list.
\<close>

definition route_step :: "Geometry \<Rightarrow> Plane \<Rightarrow> Geometry list \<times> Geometry list \<Rightarrow> Geometry list \<times> Geometry list" where
  "route_step obj bestPlane routed =
     (let mn = obj_min obj (axis bestPlane);
          mx = obj_max obj (axis bestPlane);
          leftList1 = (if mn < position bestPlane then fst routed @ [obj] else fst routed);
          rightList1 = (if mx > position bestPlane then snd routed @ [obj] else snd routed)
      in if position bestPlane = mx \<and> position bestPlane = mn \<and> vlength (getNormal obj) < 0
         then (leftList1 @ [obj], rightList1)
         else if position bestPlane = mx \<and> position bestPlane = mn \<and> vlength (getNormal obj) \<ge> 0
         then (leftList1, rightList1 @ [obj])
         else (leftList1, rightList1))"

fun route :: "Geometry list \<Rightarrow> Plane \<Rightarrow> Geometry list \<times> Geometry list \<Rightarrow> Geometry list \<times> Geometry list" where
  "route [] bestPlane routed = routed"
| "route (obj # objs) bestPlane routed = route objs bestPlane (route_step obj bestPlane routed)"

text \<open>
  \<open>buildTreeHelper\<close>. The comparison \<open>objList.size() <= leafSize\<close> converts the \<open>int\<close> to
  \<open>size_t\<close>, so a negative \<open>leafSize\<close> compares as a huge bound. \<open>++depth\<close> is evaluated only
  when the first test fails. The constructor \<open>SplitNode(int a, int p, \<dots>)\<close> receives the
  position through an \<open>int\<close> parameter, which truncates it; a position whose truncation is
  outside the range of \<open>int\<close> makes the conversion undefined, and the model returns \<open>None\<close>.
  The recursion need not end (with \<open>depthLimit \<le> 0\<close> and lists that do not shrink), hence
  the option type.
\<close>

partial_function (option) buildTreeHelper ::
  "(real \<Rightarrow> real) \<Rightarrow> (BoundingBox \<Rightarrow> real) \<Rightarrow> Plane \<Rightarrow> Geometry list \<Rightarrow> BoundingBox
     \<Rightarrow> int \<Rightarrow> int \<Rightarrow> int \<Rightarrow> Node option"
where
  "buildTreeHelper rd A u objList bbox depthLimit leafSize depth =
     (if int (length objList) \<le> (if leafSize < 0 then leafSize + 2 ^ 64 else leafSize)
         \<or> depth + 1 = depthLimit
      then Some (LeafNode objList)
      else
        (let bestPlane = findBestPlane rd A u objList bbox;
             routed = route objList bestPlane ([], [])
         in if snd routed = [] \<or> fst routed = [] then Some (LeafNode objList)
            else
              (case double_to_int (position bestPlane) of
                 None \<Rightarrow> None
               | Some p \<Rightarrow>
                   Option.bind (buildTreeHelper rd A u (fst routed) (leftBBox bestPlane) depthLimit leafSize (depth + 1))
                     (\<lambda>l. Option.bind (buildTreeHelper rd A u (snd routed) (rightBBox bestPlane) depthLimit leafSize (depth + 1))
                       (\<lambda>rt. Some (SplitNode (axis bestPlane) (real_of_int p) bbox l rt))))))"

definition buildTree ::
  "(real \<Rightarrow> real) \<Rightarrow> (BoundingBox \<Rightarrow> real) \<Rightarrow> Plane \<Rightarrow> Geometry list \<Rightarrow> BoundingBox \<Rightarrow> int \<Rightarrow> int
     \<Rightarrow> Node option" where
  "buildTree rd A u objList bbox depthLimit leafSize =
     buildTreeHelper rd A u objList bbox depthLimit leafSize 0"

subsection \<open>Concrete boxes for evaluation\<close>

text \<open>
  Modelled from the spec: \<open>BoundingBox::intersect\<close> is not among the sources. The
  specification describes the slab method: on every axis on which the ray is not parallel
  to the slabs (direction outside \<open>\<plusminus>RAY_EPSILON\<close>) the two plane crossings bound the
  interval, and the result is the overlap of these intervals, a function of the ray and the
  box. Only the interval it leaves is modelled; when the ray is parallel to all three axes
  the interval on entry is returned.
\<close>

definition slab_axis :: "real \<Rightarrow> BoundingBox \<Rightarrow> ray \<Rightarrow> int \<Rightarrow> (real \<times> real) option" where
  "slab_axis eps b r a =
     (let d = vidx (direction r) a; R0 = vidx (origin r) a
      in if d < eps \<and> d > - eps then None
         else
           (let t1 = (vidx (bmin b) a - R0) / d; t2 = (vidx (bmax b) a - R0) / d
            in Some (min t1 t2, max t1 t2)))"

fun clip_step :: "(real \<times> real) option \<Rightarrow> (real \<times> real) option \<Rightarrow> (real \<times> real) option" where
  "clip_step None y = y"
| "clip_step (Some x) None = Some x"
| "clip_step (Some (a, b)) (Some (c, d)) = Some (max a c, min b d)"

definition slab_intersect :: "real \<Rightarrow> clip" where
  "slab_intersect eps b r iv =
     (case clip_step (clip_step (slab_axis eps b r 0) (slab_axis eps b r 1)) (slab_axis eps b r 2) of
        None \<Rightarrow> iv
      | Some iv' \<Rightarrow> iv')"

text \<open>
  An opaque axis-aligned box as a scene object: it reports the hit where the ray enters
  the box, if that lies in front of the origin.
\<close>

definition paint :: "nat \<Rightarrow> material" where
  "paint n = \<lparr>mat_id = n, Refl = False, Trans = False, kr = (0, 0, 0), kt = (0, 0, 0), index = 1\<rparr>"

definition box_geometry :: "real \<Rightarrow> BoundingBox \<Rightarrow> material \<Rightarrow> Geometry" where
  "box_geometry eps b m =
     \<lparr>getBoundingBox = b,
      geom_intersect =
        (\<lambda>r. case slab_intersect eps b r (0, 0) of
               (lo, hi) \<Rightarrow>
                 if lo \<le> hi \<and> eps < lo
                 then Some \<lparr>isect_t = lo, isect_N = (1, 0, 0), isect_material = m\<rparr>
                 else None),
      getNormal = (1, 0, 0)\<rparr>"

definition eps12 :: real where
  "eps12 = 1 / 10 ^ 12"

definition box_A :: Geometry where
  "box_A = box_geometry eps12 \<lparr>bmin = (0, 0, 0), bmax = (1, 1, 1)\<rparr> (paint 1)"

definition box_B :: Geometry where
  "box_B = box_geometry eps12 \<lparr>bmin = (2, 0, 0), bmax = (3, 1, 1)\<rparr> (paint 2)"

definition sheet :: Geometry where
  "sheet = box_geometry eps12 \<lparr>bmin = (1, 0, 0), bmax = (1, 1, 1)\<rparr> (paint 3)"

definition plane_x1 :: Plane where
  "plane_x1 = \<lparr>axis = 0, position = 1, leftCount = 0, rightCount = 0, leftBBoxArea = 0,
     rightBBoxArea = 0, leftBBox = \<lparr>bmin = (0, 0, 0), bmax = (1, 1, 1)\<rparr>,
     rightBBox = \<lparr>bmin = (1, 0, 0), bmax = (3, 1, 1)\<rparr>\<rparr>"

section \<open>Routing of objects that lie in the split plane\<close>

lemma vlength_nonneg: "0 \<le> vlength v"
proof -
  obtain x y z where "v = (x, y, z)" using prod_cases3 by blast
  then show ?thesis by (simp add: vlength_def)
qed

lemma route_step_eq:
  "route_step obj bp (l, r) =
     (if obj_min obj (axis bp) < position bp then l @ [obj] else l,
      if obj_max obj (axis bp) > position bp
         \<or> (obj_min obj (axis bp) = position bp \<and> obj_max obj (axis bp) = position bp)
      then r @ [obj] else r)"
  using vlength_nonneg [of "getNormal obj"] by (auto simp: route_step_def Let_def)

lemma route_eq:
  "route objs bp (l, r) =
     (l @ filter (\<lambda>obj. obj_min obj (axis bp) < position bp) objs,
      r @ filter (\<lambda>obj. obj_max obj (axis bp) > position bp
                 \<or> (obj_min obj (axis bp) = position bp \<and> obj_max obj (axis bp) = position bp)) objs)"
  by (induction objs arbitrary: l r) (simp_all add: route_step_eq)

text \<open>
  Claim C7. The guard \<open>glm::length(obj->getNormal()) < 0\<close> of the left-routing tie-break is
  false for every object, and every object of the list whose bounding box on the split axis
  has \<open>min = max = position\<close> is put in the right list and not in the left list.
\<close>

theorem tie_break_routes_right:
  "\<not> vlength (getNormal obj) < 0 \<and>
   (obj \<in> set objList \<and> obj_min obj (axis bestPlane) = position bestPlane
      \<and> obj_max obj (axis bestPlane) = position bestPlane
    \<longrightarrow> obj \<in> set (snd (route objList bestPlane ([], [])))
        \<and> obj \<notin> set (fst (route objList bestPlane ([], []))))"
  using vlength_nonneg [of "getNormal obj"] by (auto simp: route_eq)

theorem tie_break_routes_right_witness:
  "sheet \<in> set [box_A, sheet, box_B] \<and> obj_min sheet (axis plane_x1) = position plane_x1 \<and>
   obj_max sheet (axis plane_x1) = position plane_x1 \<and>
   sheet \<in> set (snd (route [box_A, sheet, box_B] plane_x1 ([], []))) \<and>
   sheet \<notin> set (fst (route [box_A, sheet, box_B] plane_x1 ([], [])))"
proof -
  have h: "sheet \<in> set [box_A, sheet, box_B] \<and> obj_min sheet (axis plane_x1) = position plane_x1 \<and>
     obj_max sheet (axis plane_x1) = position plane_x1"
    by (simp add: sheet_def box_geometry_def plane_x1_def obj_min_def obj_max_def)
  with tie_break_routes_right [of sheet "[box_A, sheet, box_B]" plane_x1] show ?thesis
    by blast
qed

section \<open>Choice of the split plane\<close>

text \<open>
  The claim's description of the candidates, in the order in which \<open>findBestPlane\<close> meets
  them (axis by axis, object by object, lower bound before upper bound), and of the cost of
  a candidate \<open>(axis, position)\<close>.
\<close>

definition candidate_keys :: "Geometry list \<Rightarrow> (int \<times> real) list" where
  "candidate_keys objList =
     concat (map (\<lambda>a. concat (map (\<lambda>obj. [(a, obj_min obj a), (a, obj_max obj a)]) objList)) [0, 1, 2])"

definition count_below :: "Geometry list \<Rightarrow> int \<Rightarrow> real \<Rightarrow> int" where
  "count_below objList a pos = int (length (filter (\<lambda>obj. obj_min obj a < pos) objList))"

definition count_above :: "Geometry list \<Rightarrow> int \<Rightarrow> real \<Rightarrow> int" where
  "count_above objList a pos = int (length (filter (\<lambda>obj. obj_max obj a > pos) objList))"

text \<open>
  The cost \<open>(Nl \<sqdot> A(leftBox) + Nr \<sqdot> A(rightBox)) / A(parentBox)\<close> as double arithmetic
  computes it: every product, the sum and the quotient rounded.
\<close>

definition sah_cost ::
  "(real \<Rightarrow> real) \<Rightarrow> (BoundingBox \<Rightarrow> real) \<Rightarrow> Geometry list \<Rightarrow> BoundingBox \<Rightarrow> int \<times> real \<Rightarrow> real" where
  "sah_cost rd A objList bbox key =
     (case key of (a, pos) \<Rightarrow>
        rd (rd (rd (real_of_int (count_below objList a pos) * A (setMax bbox a pos))
                + rd (real_of_int (count_above objList a pos) * A (setMin bbox a pos))) / A bbox))"

text \<open>
  The largest finite double, and the condition that the computation of the cost of a
  candidate stays finite: the three areas and the four rounded results lie within the range
  of the finite doubles. Outside it the source computes with infinities and NaN, which the
  reals do not have.
\<close>

definition DBL_MAX :: real where
  "DBL_MAX = (2 ^ 53 - 1) * 2 ^ 971"

definition finite_double :: "real \<Rightarrow> bool" where
  "finite_double v \<longleftrightarrow> \<bar>v\<bar> \<le> DBL_MAX"

definition cost_finite ::
  "(real \<Rightarrow> real) \<Rightarrow> (BoundingBox \<Rightarrow> real) \<Rightarrow> Geometry list \<Rightarrow> BoundingBox \<Rightarrow> int \<times> real \<Rightarrow> bool" where
  "cost_finite rd A objList bbox key =
     (case key of (a, pos) \<Rightarrow>
        (let l = rd (real_of_int (count_below objList a pos) * A (setMax bbox a pos));
             r = rd (real_of_int (count_above objList a pos) * A (setMin bbox a pos))
         in finite_double (A (setMax bbox a pos)) \<and> finite_double (A (setMin bbox a pos)) \<and>
            finite_double (A bbox) \<and> finite_double l \<and> finite_double r \<and>
            finite_double (rd (l + r)) \<and> finite_double (rd (rd (l + r) / A bbox))))"

lemma countP_loop_eq:
  "countP_loop objs plane (cl, cr) =
     (cl + count_below objs (axis plane) (position plane),
      cr + count_above objs (axis plane) (position plane))"
  by (induction objs arbitrary: cl cr) (simp_all add: count_below_def count_above_def)

lemma countP_eq:
  "countP objs plane True = count_below objs (axis plane) (position plane)"
  "countP objs plane False = count_above objs (axis plane) (position plane)"
  by (simp_all add: countP_def countP_loop_eq)

lemma bbox_copy: "\<lparr>bmin = bmin b, bmax = bmax b\<rparr> = b"
  by (cases b) simp

lemma fill_candidate:
  "fill_plane A objs (candidate u bbox a pos) =
     u\<lparr>axis := a, position := pos,
       leftCount := count_below objs a pos, rightCount := count_above objs a pos,
       leftBBoxArea := A (setMax bbox a pos), rightBBoxArea := A (setMin bbox a pos),
       leftBBox := setMax bbox a pos, rightBBox := setMin bbox a pos\<rparr>"
  by (cases u) (simp add: fill_plane_def candidate_def countP_eq Let_def bbox_copy)

lemma cost_candidate:
  "plane_cost rd A bbox (fill_plane A objs (candidate u bbox a pos)) = sah_cost rd A objs bbox (a, pos)"
  by (simp add: fill_candidate plane_cost_def sah_cost_def)

lemma planeList_keys:
  "planeList u objs bbox = map (\<lambda>(a, pos). candidate u bbox a pos) (candidate_keys objs)"
  by (simp add: planeList_def candidate_keys_def map_concat comp_def)

lemma bestPlane_loop_first_min:
  fixes rd :: "real \<Rightarrow> real" and A :: "BoundingBox \<Rightarrow> real"
    and objs :: "Geometry list" and bbox :: BoundingBox and c :: "Plane \<Rightarrow> real"
  defines "c \<equiv> \<lambda>q. plane_cost rd A bbox (fill_plane A objs q)"
  shows "(if \<exists>q \<in> set qs. c q < m0
          then \<exists>k < length qs.
                 bestPlane_loop rd A objs bbox qs (m0, b0) = (c (qs ! k), fill_plane A objs (qs ! k)) \<and>
                 c (qs ! k) < m0 \<and>
                 (\<forall>j < length qs. c (qs ! k) \<le> c (qs ! j)) \<and>
                 (\<forall>j < k. c (qs ! k) < c (qs ! j))
          else bestPlane_loop rd A objs bbox qs (m0, b0) = (m0, b0))"
proof (induction qs arbitrary: m0 b0)
  case Nil
  show ?case by simp
next
  case (Cons q qs)
  show ?case
  proof (cases "c q < m0")
    case True
    have step: "bestPlane_loop rd A objs bbox (q # qs) (m0, b0) = bestPlane_loop rd A objs bbox qs (c q, fill_plane A objs q)"
      using True by (simp add: c_def Let_def)
    show ?thesis
    proof (cases "\<exists>q' \<in> set qs. c q' < c q")
      case better: True
      with Cons.IH [of "c q" "fill_plane A objs q"]
      obtain k where k: "k < length qs"
        "bestPlane_loop rd A objs bbox qs (c q, fill_plane A objs q) = (c (qs ! k), fill_plane A objs (qs ! k))"
        "c (qs ! k) < c q" "\<forall>j < length qs. c (qs ! k) \<le> c (qs ! j)" "\<forall>j < k. c (qs ! k) < c (qs ! j)"
        by auto
      have "Suc k < length (q # qs)" using k(1) by simp
      moreover have "bestPlane_loop rd A objs bbox (q # qs) (m0, b0)
          = (c ((q # qs) ! Suc k), fill_plane A objs ((q # qs) ! Suc k))"
        using step k(2) by simp
      moreover have "c ((q # qs) ! Suc k) < m0" using k(3) True by simp
      moreover have "\<forall>j < length (q # qs). c ((q # qs) ! Suc k) \<le> c ((q # qs) ! j)"
        using k(3,4) by (auto simp: nth_Cons')
      moreover have "\<forall>j < Suc k. c ((q # qs) ! Suc k) < c ((q # qs) ! j)"
        using k(3,5) by (auto simp: nth_Cons' less_Suc_eq_0_disj)
      ultimately have "\<exists>k < length (q # qs).
                 bestPlane_loop rd A objs bbox (q # qs) (m0, b0) = (c ((q # qs) ! k), fill_plane A objs ((q # qs) ! k)) \<and>
                 c ((q # qs) ! k) < m0 \<and>
                 (\<forall>j < length (q # qs). c ((q # qs) ! k) \<le> c ((q # qs) ! j)) \<and>
                 (\<forall>j < k. c ((q # qs) ! k) < c ((q # qs) ! j))"
        by blast
      moreover have "\<exists>q' \<in> set (q # qs). c q' < m0" using True by simp
      ultimately show ?thesis by (simp only: if_True)
    next
      case none: False
      with Cons.IH [of "c q" "fill_plane A objs q"]
      have "bestPlane_loop rd A objs bbox qs (c q, fill_plane A objs q) = (c q, fill_plane A objs q)"
        by (simp only: if_False)
      then have res: "bestPlane_loop rd A objs bbox (q # qs) (m0, b0) = (c ((q # qs) ! 0), fill_plane A objs ((q # qs) ! 0))"
        using step by simp
      have "\<forall>j < length (q # qs). c ((q # qs) ! 0) \<le> c ((q # qs) ! j)"
        using none by (auto simp: nth_Cons' not_less)
      with res True have "\<exists>k < length (q # qs).
                 bestPlane_loop rd A objs bbox (q # qs) (m0, b0) = (c ((q # qs) ! k), fill_plane A objs ((q # qs) ! k)) \<and>
                 c ((q # qs) ! k) < m0 \<and>
                 (\<forall>j < length (q # qs). c ((q # qs) ! k) \<le> c ((q # qs) ! j)) \<and>
                 (\<forall>j < k. c ((q # qs) ! k) < c ((q # qs) ! j))"
        by (intro exI [of _ 0]) simp
      moreover have "\<exists>q' \<in> set (q # qs). c q' < m0" using True by simp
      ultimately show ?thesis by (simp only: if_True)
    qed
  next
    case False
    have step: "bestPlane_loop rd A objs bbox (q # qs) (m0, b0) = bestPlane_loop rd A objs bbox qs (m0, b0)"
      using False by (simp add: c_def Let_def)
    show ?thesis
    proof (cases "\<exists>q' \<in> set qs. c q' < m0")
      case better: True
      with Cons.IH [of m0 b0]
      obtain k where k: "k < length qs"
        "bestPlane_loop rd A objs bbox qs (m0, b0) = (c (qs ! k), fill_plane A objs (qs ! k))"
        "c (qs ! k) < m0" "\<forall>j < length qs. c (qs ! k) \<le> c (qs ! j)" "\<forall>j < k. c (qs ! k) < c (qs ! j)"
        by auto
      have "Suc k < length (q # qs)" using k(1) by simp
      moreover have "bestPlane_loop rd A objs bbox (q # qs) (m0, b0)
          = (c ((q # qs) ! Suc k), fill_plane A objs ((q # qs) ! Suc k))"
        using step k(2) by simp
      moreover have "c ((q # qs) ! Suc k) < m0" using k(3) by simp
      moreover have "\<forall>j < length (q # qs). c ((q # qs) ! Suc k) \<le> c ((q # qs) ! j)"
        using k(3,4) False by (auto simp: nth_Cons')
      moreover have "\<forall>j < Suc k. c ((q # qs) ! Suc k) < c ((q # qs) ! j)"
        using k(3,5) False by (auto simp: nth_Cons' less_Suc_eq_0_disj)
      ultimately have "\<exists>k < length (q # qs).
                 bestPlane_loop rd A objs bbox (q # qs) (m0, b0) = (c ((q # qs) ! k), fill_plane A objs ((q # qs) ! k)) \<and>
                 c ((q # qs) ! k) < m0 \<and>
                 (\<forall>j < length (q # qs). c ((q # qs) ! k) \<le> c ((q # qs) ! j)) \<and>
                 (\<forall>j < k. c ((q # qs) ! k) < c ((q # qs) ! j))"
        by blast
      moreover have "\<exists>q' \<in> set (q # qs). c q' < m0" using better by simp
      ultimately show ?thesis by (simp only: if_True)
    next
      case none: False
      with Cons.IH [of m0 b0] have "bestPlane_loop rd A objs bbox qs (m0, b0) = (m0, b0)"
        by (simp only: if_False)
      moreover have "\<not> (\<exists>q' \<in> set (q # qs). c q' < m0)" using none False by simp
      ultimately show ?thesis using step by (simp only: if_False)
    qed
  qed
qed

lemma candidate_key_member:
  assumes "(a, pos) \<in> set (candidate_keys objs)"
  shows "a \<in> {0, 1, 2} \<and> (\<exists>obj \<in> set objs. pos = obj_min obj a \<or> pos = obj_max obj a)"
  using assms by (auto simp: candidate_keys_def)

text \<open>
  Two boxes whose sides are \<open>2 \<sqdot> 2\<^sup>3\<^sup>3\<^sup>6\<close> long (about \<open>2.8 \<sqdot> 10\<^sup>1\<^sup>0\<^sup>1\<close>) around a node whose box
  has been clipped to the unit cube, and the indeterminate plane that \<open>bestPlane\<close> holds
  before the loop.
\<close>

definition far :: real where
  "far = 2 ^ 336"

definition huge_1 :: Geometry where
  "huge_1 = box_geometry eps12 \<lparr>bmin = (- far, - far, - far), bmax = (far, far, far)\<rparr> (paint 4)"

definition huge_2 :: Geometry where
  "huge_2 = box_geometry eps12 \<lparr>bmin = (- far, - far, - far), bmax = (far, far, far)\<rparr> (paint 5)"

definition unit_bbox :: BoundingBox where
  "unit_bbox = \<lparr>bmin = (0, 0, 0), bmax = (1, 1, 1)\<rparr>"

definition junk_plane :: Plane where
  "junk_plane = \<lparr>axis = 7, position = 0, leftCount = 0, rightCount = 0, leftBBoxArea = 0,
     rightBBoxArea = 0, leftBBox = \<lparr>bmin = (0, 0, 0), bmax = (0, 0, 0)\<rparr>,
     rightBBox = \<lparr>bmin = (0, 0, 0), bmax = (0, 0, 0)\<rparr>\<rparr>"

definition scene_bbox :: BoundingBox where
  "scene_bbox = \<lparr>bmin = (0, 0, 0), bmax = (3, 1, 1)\<rparr>"

lemma far_positive: "0 < far"
  by (simp add: far_def)

lemma huge_bounds:
  assumes "a \<in> {0, 1, 2}" "obj \<in> set [huge_1, huge_2]"
  shows "obj_min obj a = - far \<and> obj_max obj a = far"
  using assms by (auto simp: huge_1_def huge_2_def box_geometry_def obj_min_def obj_max_def)

lemma huge_counts:
  assumes "a \<in> {0, 1, 2}"
  shows "count_below [huge_1, huge_2] a (- far) = 0" "count_above [huge_1, huge_2] a (- far) = 2"
    "count_below [huge_1, huge_2] a far = 2" "count_above [huge_1, huge_2] a far = 0"
  using huge_bounds [OF assms] far_positive by (simp_all add: count_below_def count_above_def)

lemma huge_areas:
  assumes "a \<in> {0, 1, 2}"
  shows "area (setMin unit_bbox a (- far)) = 4 * far + 6" "area (setMax unit_bbox a far) = 4 * far + 2"
    "area unit_bbox = 6"
  using assms by (auto simp: unit_bbox_def area_def setMin_def setMax_def)

lemma huge_costs:
  assumes "a \<in> {0, 1, 2}"
  shows "sah_cost exact area [huge_1, huge_2] unit_bbox (a, - far) = 2 * (4 * far + 6) / 6"
    "sah_cost exact area [huge_1, huge_2] unit_bbox (a, far) = 2 * (4 * far + 2) / 6"
  by (simp_all add: sah_cost_def exact_def huge_counts [OF assms] huge_areas [OF assms])

lemma bestPlane_loop_none:
  assumes "\<forall>q \<in> set qs. \<not> plane_cost rd A bbox (fill_plane A objs q) < m0"
  shows "bestPlane_loop rd A objs bbox qs (m0, b0) = (m0, b0)"
  using bestPlane_loop_first_min [where qs = qs and bbox = bbox and objs = objs and ?m0.0 = m0
      and ?b0.0 = b0 and rd = rd and A = A] assms by auto

text \<open>
  Claim C6 as stated fails on a build step whose candidates all cost \<open>10\<^sup>1\<^sup>0\<^sup>0\<close> or more: no
  candidate passes the test \<open>s < minS\<close> against the initial \<open>minS = 1e100\<close>, and the function
  returns the plane it started with, which is no candidate. Here every cost is about
  \<open>1.9 \<sqdot> 10\<^sup>1\<^sup>0\<^sup>1\<close>, and with \<open>leafSize = 1\<close> the two objects make a non-leaf step. The corners
  of the boxes are doubles; the costs are evaluated without rounding, and rounding, which
  changes a result by less than one part in \<open>10\<^sup>1\<^sup>5\<close>, leaves them above the bound.
\<close>

theorem findBestPlane_sentinel_counterexample:
  "findBestPlane exact area junk_plane [huge_1, huge_2] unit_bbox = junk_plane \<and>
   (axis junk_plane, position junk_plane) \<notin> set (candidate_keys [huge_1, huge_2])"
proof -
  have big: "\<not> (2 * (4 * far + 6) / 6 < double_1e100)" "\<not> (2 * (4 * far + 2) / 6 < double_1e100)"
    by (simp_all add: far_def double_1e100_def)
  have costly: "\<not> sah_cost exact area [huge_1, huge_2] unit_bbox key < double_1e100"
    if "key \<in> set (candidate_keys [huge_1, huge_2])" for key
  proof -
    obtain a pos where key: "key = (a, pos)" by (cases key) auto
    from candidate_key_member [OF that [unfolded key]]
    have a: "a \<in> {0, 1, 2}" and "\<exists>obj \<in> set [huge_1, huge_2]. pos = obj_min obj a \<or> pos = obj_max obj a"
      by blast+
    then have "pos = - far \<or> pos = far"
      using huge_bounds [OF a] by blast
    then show ?thesis
      using huge_costs [OF a] big by (auto simp only: key)
  qed
  have "\<forall>q \<in> set (planeList junk_plane [huge_1, huge_2] unit_bbox).
          \<not> plane_cost exact area unit_bbox (fill_plane area [huge_1, huge_2] q) < double_1e100"
    using costly by (auto simp: planeList_keys cost_candidate)
  then have "findBestPlane exact area junk_plane [huge_1, huge_2] unit_bbox = junk_plane"
    by (simp only: findBestPlane_def bestPlane_loop_none snd_conv)
  moreover have "(axis junk_plane, position junk_plane) \<notin> set (candidate_keys [huge_1, huge_2])"
    using candidate_key_member [of "axis junk_plane" "position junk_plane" "[huge_1, huge_2]"]
    by (auto simp: junk_plane_def)
  ultimately show ?thesis by blast
qed

text \<open>
  Claim C6, amended. The cost of a candidate is the double that the source computes,
  \<open>rd (rd (rd (Nl \<sqdot> A(left)) + rd (Nr \<sqdot> A(right))) / A(parent))\<close>, with \<open>A\<close> the double
  returned by \<open>BoundingBox::area\<close> and \<open>rd\<close> the rounding of one operation; candidates whose
  costs are equal as real numbers need not have equal computed costs. For a list of fewer
  than \<open>2\<^sup>3\<^sup>1\<close> objects and a parent box whose area is not zero, if the computation of every
  candidate's cost stays finite and some candidate's computed cost is less than the initial
  bound, the double \<open>1e100\<close>, then \<open>findBestPlane\<close> returns a candidate
  \<open>(axis, obj.bbox.min[axis])\<close> or \<open>(axis, obj.bbox.max[axis])\<close> of an object of the list and
  an axis in \<open>{0, 1, 2}\<close>, with the two child boxes clipped from the parent at the plane and
  with \<open>Nl\<close>, \<open>Nr\<close> the numbers of objects whose lower bound lies strictly below and whose
  upper bound lies strictly above it; its computed cost is minimal among the computed costs
  of all candidates, and it is the first candidate of that computed cost. This holds for
  every rounding function and every area function.
\<close>

theorem findBestPlane_first_minimum:
  fixes rd :: "real \<Rightarrow> real" and A :: "BoundingBox \<Rightarrow> real"
  assumes "A bbox \<noteq> 0"
    and "int (length objList) < 2 ^ 31"
    and "\<forall>key \<in> set (candidate_keys objList). cost_finite rd A objList bbox key"
    and "\<exists>key \<in> set (candidate_keys objList). sah_cost rd A objList bbox key < double_1e100"
  shows "\<exists>k < length (candidate_keys objList).
           (case candidate_keys objList ! k of (a, pos) \<Rightarrow>
              findBestPlane rd A u objList bbox =
                u\<lparr>axis := a, position := pos,
                  leftCount := count_below objList a pos, rightCount := count_above objList a pos,
                  leftBBoxArea := A (setMax bbox a pos), rightBBoxArea := A (setMin bbox a pos),
                  leftBBox := setMax bbox a pos, rightBBox := setMin bbox a pos\<rparr> \<and>
              a \<in> {0, 1, 2} \<and>
              (\<exists>obj \<in> set objList. pos = obj_min obj a \<or> pos = obj_max obj a)) \<and>
           (\<forall>j < length (candidate_keys objList).
              sah_cost rd A objList bbox (candidate_keys objList ! k)
                \<le> sah_cost rd A objList bbox (candidate_keys objList ! j)) \<and>
           (\<forall>j < k.
              sah_cost rd A objList bbox (candidate_keys objList ! k)
                < sah_cost rd A objList bbox (candidate_keys objList ! j))"
proof -
  let ?keys = "candidate_keys objList"
  let ?qs = "planeList u objList bbox"
  let ?c = "\<lambda>q. plane_cost rd A bbox (fill_plane A objList q)"
  have len: "length ?qs = length ?keys"
    by (simp add: planeList_keys)
  have nth: "?qs ! j = candidate u bbox (fst (?keys ! j)) (snd (?keys ! j))" if "j < length ?keys" for j
    using that by (simp add: planeList_keys case_prod_beta)
  have cost: "?c (?qs ! j) = sah_cost rd A objList bbox (?keys ! j)" if "j < length ?keys" for j
    using nth [OF that] cost_candidate [of rd A bbox objList u "fst (?keys ! j)" "snd (?keys ! j)"] by simp
  from assms(4) obtain j0 where j0: "j0 < length ?keys" "sah_cost rd A objList bbox (?keys ! j0) < double_1e100"
    by (auto simp: in_set_conv_nth)
  then have "?qs ! j0 \<in> set ?qs" "?c (?qs ! j0) < double_1e100"
    using len cost [OF j0(1)] by simp_all
  then have ex: "\<exists>q \<in> set ?qs. ?c q < double_1e100"
    by blast
  from bestPlane_loop_first_min [where qs = ?qs and bbox = bbox and objs = objList
      and ?m0.0 = double_1e100 and ?b0.0 = u and rd = rd and A = A] ex
  obtain k where k: "k < length ?qs"
    "bestPlane_loop rd A objList bbox ?qs (double_1e100, u) = (?c (?qs ! k), fill_plane A objList (?qs ! k))"
    "\<forall>j < length ?qs. ?c (?qs ! k) \<le> ?c (?qs ! j)" "\<forall>j < k. ?c (?qs ! k) < ?c (?qs ! j)"
    by auto
  have kk: "k < length ?keys" using k(1) len by simp
  obtain a pos where key: "?keys ! k = (a, pos)"
    by (cases "?keys ! k") auto
  then have mem: "(a, pos) \<in> set ?keys"
    using kk by (metis nth_mem)
  have best: "findBestPlane rd A u objList bbox =
                u\<lparr>axis := a, position := pos,
                  leftCount := count_below objList a pos, rightCount := count_above objList a pos,
                  leftBBoxArea := A (setMax bbox a pos), rightBBoxArea := A (setMin bbox a pos),
                  leftBBox := setMax bbox a pos, rightBBox := setMin bbox a pos\<rparr>"
    using k(2) nth [OF kk] key by (simp add: findBestPlane_def fill_candidate)
  have min_all: "\<forall>j < length ?keys. sah_cost rd A objList bbox (?keys ! k) \<le> sah_cost rd A objList bbox (?keys ! j)"
    using k(3) cost kk len by auto
  have first: "\<forall>j < k. sah_cost rd A objList bbox (?keys ! k) < sah_cost rd A objList bbox (?keys ! j)"
    using k(4) cost kk by auto
  show ?thesis
    using kk best candidate_key_member [OF mem] min_all first key
    by (intro exI [of _ k]) simp
qed

text \<open>
  The amended statement on the boxes \<open>A\<close> and \<open>B\<close> in the box \<open>[0, 3] \<times> [0, 1] \<times> [0, 1]\<close>.
  Every count, area, product and sum is an integer below 30, exact in double arithmetic;
  only the quotients \<open>16 / 14\<close> of the two cheapest candidates are rounded, both from the same
  operands.
\<close>

lemma two_box_keys:
  "candidate_keys [box_A, box_B] =
     [(0, 0), (0, 1), (0, 2), (0, 3), (1, 0), (1, 1), (1, 0), (1, 1), (2, 0), (2, 1), (2, 0), (2, 1)]"
  by (simp add: candidate_keys_def box_A_def box_B_def box_geometry_def obj_min_def obj_max_def)

lemma two_box_costs:
  "sah_cost exact area [box_A, box_B] scene_bbox (0, 0) = 2"
  "sah_cost exact area [box_A, box_B] scene_bbox (0, 1) = 8 / 7"
  "sah_cost exact area [box_A, box_B] scene_bbox (0, 2) = 8 / 7"
  "sah_cost exact area [box_A, box_B] scene_bbox (0, 3) = 2"
  "sah_cost exact area [box_A, box_B] scene_bbox (1, 0) = 2"
  "sah_cost exact area [box_A, box_B] scene_bbox (1, 1) = 2"
  "sah_cost exact area [box_A, box_B] scene_bbox (2, 0) = 2"
  "sah_cost exact area [box_A, box_B] scene_bbox (2, 1) = 2"
  by (simp_all add: sah_cost_def exact_def count_below_def count_above_def box_A_def box_B_def
      box_geometry_def obj_min_def obj_max_def scene_bbox_def area_def setMin_def setMax_def)

lemma below_1e100: "2 < double_1e100" "8 / 7 < double_1e100"
  by (simp_all add: double_1e100_def)

lemma finite_small:
  assumes "\<bar>v\<bar> \<le> 100"
  shows "finite_double v"
proof -
  have "(100 :: real) \<le> DBL_MAX"
    by (simp add: DBL_MAX_def)
  with assms show ?thesis
    unfolding finite_double_def by (rule order_trans)
qed

lemma two_box_finite:
  assumes "key \<in> set (candidate_keys [box_A, box_B])"
  shows "cost_finite exact area [box_A, box_B] scene_bbox key"
  using assms unfolding two_box_keys
  by (auto simp: cost_finite_def Let_def exact_def count_below_def count_above_def box_A_def box_B_def
      box_geometry_def obj_min_def obj_max_def scene_bbox_def area_def setMin_def setMax_def
      intro!: finite_small)

theorem findBestPlane_first_minimum_witness:
  "\<exists>k < length (candidate_keys [box_A, box_B]).
           (case candidate_keys [box_A, box_B] ! k of (a, pos) \<Rightarrow>
              findBestPlane exact area junk_plane [box_A, box_B] scene_bbox =
                junk_plane\<lparr>axis := a, position := pos,
                  leftCount := count_below [box_A, box_B] a pos, rightCount := count_above [box_A, box_B] a pos,
                  leftBBoxArea := area (setMax scene_bbox a pos), rightBBoxArea := area (setMin scene_bbox a pos),
                  leftBBox := setMax scene_bbox a pos, rightBBox := setMin scene_bbox a pos\<rparr> \<and>
              a \<in> {0, 1, 2} \<and>
              (\<exists>obj \<in> set [box_A, box_B]. pos = obj_min obj a \<or> pos = obj_max obj a)) \<and>
           (\<forall>j < length (candidate_keys [box_A, box_B]).
              sah_cost exact area [box_A, box_B] scene_bbox (candidate_keys [box_A, box_B] ! k)
                \<le> sah_cost exact area [box_A, box_B] scene_bbox (candidate_keys [box_A, box_B] ! j)) \<and>
           (\<forall>j < k.
              sah_cost exact area [box_A, box_B] scene_bbox (candidate_keys [box_A, box_B] ! k)
                < sah_cost exact area [box_A, box_B] scene_bbox (candidate_keys [box_A, box_B] ! j))"
proof -
  have a: "area scene_bbox \<noteq> 0"
    by (simp add: scene_bbox_def area_def)
  have n: "int (length [box_A, box_B]) < 2 ^ 31"
    by simp
  have f: "\<forall>key \<in> set (candidate_keys [box_A, box_B]). cost_finite exact area [box_A, box_B] scene_bbox key"
    using two_box_finite by blast
  have "(0, 1) \<in> set (candidate_keys [box_A, box_B])"
    by (simp add: two_box_keys)
  moreover have "sah_cost exact area [box_A, box_B] scene_bbox (0, 1) < double_1e100"
    unfolding two_box_costs by (rule below_1e100)
  ultimately have b: "\<exists>key \<in> set (candidate_keys [box_A, box_B]).
      sah_cost exact area [box_A, box_B] scene_bbox key < double_1e100"
    by blast
  show ?thesis
    by (rule findBestPlane_first_minimum [OF a n f b])
qed

section \<open>Intersection at a leaf\<close>

text \<open>
  The interval in force when object \<open>k\<close> of the leaf is tested: the interval passed in,
  after the bounding-box calls of the objects \<open>0, \<dots>, k\<close>.
\<close>

definition clip_after :: "clip \<Rightarrow> ray \<Rightarrow> Geometry list \<Rightarrow> real \<times> real \<Rightarrow> nat \<Rightarrow> real \<times> real" where
  "clip_after bbi r objs iv k = foldl (\<lambda>iv obj. bbi (getBoundingBox obj) r iv) iv (take (Suc k) objs)"

text \<open>Object \<open>k\<close> is hit at \<open>c\<close>, and the hit lies in the interval in force.\<close>

definition eligible :: "clip \<Rightarrow> ray \<Rightarrow> Geometry list \<Rightarrow> real \<times> real \<Rightarrow> nat \<Rightarrow> isect \<Rightarrow> bool" where
  "eligible bbi r objs iv k c \<longleftrightarrow>
     k < length objs \<and> geom_intersect (objs ! k) r = Some c \<and>
     fst (clip_after bbi r objs iv k) \<le> isect_t c \<and> isect_t c \<le> snd (clip_after bbi r objs iv k)"

text \<open>
  The claim's condition: some geometry of the leaf has a hit with parameter inside the
  interval passed to the leaf.
\<close>

definition leaf_spec_hit :: "Geometry list \<Rightarrow> ray \<Rightarrow> real \<Rightarrow> real \<Rightarrow> bool" where
  "leaf_spec_hit objs r t_min t_max \<longleftrightarrow>
     (\<exists>obj \<in> set objs. \<exists>c. geom_intersect obj r = Some c \<and> t_min \<le> isect_t c \<and> isect_t c \<le> t_max)"

text \<open>The eligible hits in list order, and the running choice of the nearest.\<close>

fun hits :: "clip \<Rightarrow> ray \<Rightarrow> Geometry list \<Rightarrow> real \<times> real \<Rightarrow> isect list" where
  "hits bbi r [] iv = []"
| "hits bbi r (obj # objs) iv =
     (case geom_intersect obj r of
        Some c \<Rightarrow>
          if fst (bbi (getBoundingBox obj) r iv) \<le> isect_t c \<and> isect_t c \<le> snd (bbi (getBoundingBox obj) r iv)
          then [c] else []
      | None \<Rightarrow> []) @ hits bbi r objs (bbi (getBoundingBox obj) r iv)"

fun pick :: "isect \<Rightarrow> isect list \<Rightarrow> isect" where
  "pick i [] = i"
| "pick i (c # cs) = pick (if isect_t c < isect_t i then c else i) cs"

lemma leaf_loop_hits:
  "leaf_loop bbi r objs (f0, i0, iv0) =
     (f0 \<or> (\<exists>c \<in> set (hits bbi r objs iv0). isect_t c < isect_t i0),
      pick i0 (hits bbi r objs iv0),
      foldl (\<lambda>iv obj. bbi (getBoundingBox obj) r iv) iv0 objs)"
proof (induction objs arbitrary: f0 i0 iv0)
  case Nil
  show ?case by simp
next
  case (Cons obj objs)
  obtain a b where iv0: "iv0 = (a, b)" by (cases iv0) auto
  obtain a' b' where iv': "bbi (getBoundingBox obj) r (a, b) = (a', b')"
    by (cases "bbi (getBoundingBox obj) r (a, b)") auto
  show ?case
  proof (cases "geom_intersect obj r")
    case None
    then show ?thesis
      using Cons.IH [of f0 i0 "(a', b')"] by (simp add: iv0 iv')
  next
    case (Some cur)
    show ?thesis
    proof (cases "a' \<le> isect_t cur \<and> isect_t cur \<le> b'")
      case False
      then show ?thesis
        using Some Cons.IH [of f0 i0 "(a', b')"] by (auto simp: iv0 iv')
    next
      case inside: True
      show ?thesis
      proof (cases "isect_t cur < isect_t i0")
        case True
        then show ?thesis
          using Some inside Cons.IH [of True cur "(a', b')"] by (simp add: iv0 iv')
      next
        case False
        then show ?thesis
          using Some inside Cons.IH [of f0 i0 "(a', b')"] by (simp add: iv0 iv')
      qed
    qed
  qed
qed

lemma pick_char:
  "(if \<exists>c \<in> set cs. isect_t c < isect_t i0
    then pick i0 cs \<in> set cs \<and> isect_t (pick i0 cs) < isect_t i0 \<and>
         (\<forall>c \<in> set cs. isect_t (pick i0 cs) \<le> isect_t c)
    else pick i0 cs = i0)"
proof (induction cs arbitrary: i0)
  case Nil
  show ?case by simp
next
  case (Cons c cs)
  show ?case
  proof (cases "isect_t c < isect_t i0")
    case True
    show ?thesis
    proof (cases "\<exists>c' \<in> set cs. isect_t c' < isect_t c")
      case better: True
      with Cons.IH [of c] have "pick c cs \<in> set cs" "isect_t (pick c cs) < isect_t c"
        "\<forall>c' \<in> set cs. isect_t (pick c cs) \<le> isect_t c'"
        by auto
      then show ?thesis using True by auto
    next
      case none: False
      with Cons.IH [of c] have "pick c cs = c" by auto
      then show ?thesis using True none by (auto simp: not_less)
    qed
  next
    case False
    show ?thesis
    proof (cases "\<exists>c' \<in> set cs. isect_t c' < isect_t i0")
      case better: True
      with Cons.IH [of i0] have "pick i0 cs \<in> set cs" "isect_t (pick i0 cs) < isect_t i0"
        "\<forall>c' \<in> set cs. isect_t (pick i0 cs) \<le> isect_t c'"
        by auto
      then show ?thesis using False better by auto
    next
      case none: False
      with Cons.IH [of i0] have "pick i0 cs = i0" by auto
      then show ?thesis using False none by auto
    qed
  qed
qed

lemma eligible_Cons:
  "eligible bbi r (obj # objs) iv 0 c \<longleftrightarrow>
     geom_intersect obj r = Some c \<and>
     fst (bbi (getBoundingBox obj) r iv) \<le> isect_t c \<and> isect_t c \<le> snd (bbi (getBoundingBox obj) r iv)"
  "eligible bbi r (obj # objs) iv (Suc k) c \<longleftrightarrow> eligible bbi r objs (bbi (getBoundingBox obj) r iv) k c"
  by (simp_all add: eligible_def clip_after_def)

lemma set_hits: "c \<in> set (hits bbi r objs iv) \<longleftrightarrow> (\<exists>k. eligible bbi r objs iv k c)"
proof (induction objs arbitrary: iv)
  case Nil
  show ?case by (simp add: eligible_def)
next
  case (Cons obj objs)
  have split: "(\<exists>k. eligible bbi r (obj # objs) iv k c) \<longleftrightarrow>
      eligible bbi r (obj # objs) iv 0 c \<or> (\<exists>k. eligible bbi r (obj # objs) iv (Suc k) c)"
    by (metis not0_implies_Suc)
  show ?case
    unfolding split eligible_Cons using Cons.IH [of "bbi (getBoundingBox obj) r iv"]
    by (auto split: option.splits)
qed

text \<open>
  Rays along the x axis through the middle of the boxes, the hit record as it is before a
  query, and a box \<open>2 \<sqdot> 10\<^sup>1\<^sup>3\<close> away.
\<close>

definition ray_forth :: ray where
  "ray_forth = mk_ray (0, 1 / 2, 1 / 2) (1, 0, 0) (1, 1, 1) VISIBILITY"

definition ray_back :: ray where
  "ray_back = mk_ray (10, 1 / 2, 1 / 2) (- 1, 0, 0) (1, 1, 1) VISIBILITY"

definition blank_isect :: isect where
  "blank_isect = \<lparr>isect_t = 0, isect_N = (0, 0, 0), isect_material = paint 0\<rparr>"

definition far_box :: Geometry where
  "far_box = box_geometry eps12 \<lparr>bmin = (2 * 10 ^ 13, 0, 0), bmax = (2 * 10 ^ 13 + 1, 1, 1)\<rparr> (paint 6)"

lemma slab_forth:
  assumes "x0 \<le> x1"
  shows "slab_intersect eps12 \<lparr>bmin = (x0, y0, z0), bmax = (x1, y1, z1)\<rparr> ray_forth iv = (x0, x1)"
  using assms by (simp add: slab_intersect_def slab_axis_def ray_forth_def mk_ray_def eps12_def Let_def)

lemma slab_back:
  assumes "x0 \<le> x1"
  shows "slab_intersect eps12 \<lparr>bmin = (x0, y0, z0), bmax = (x1, y1, z1)\<rparr> ray_back iv = (10 - x1, 10 - x0)"
  using assms by (simp add: slab_intersect_def slab_axis_def ray_back_def mk_ray_def eps12_def Let_def)

lemma eps12_small: "0 < eps12" "eps12 < 1"
  by (simp_all add: eps12_def)

lemma box_hit_forth:
  assumes "x0 \<le> x1" "1 < x0"
  shows "geom_intersect (box_geometry eps12 \<lparr>bmin = (x0, y0, z0), bmax = (x1, y1, z1)\<rparr> m) ray_forth
           = Some \<lparr>isect_t = x0, isect_N = (1, 0, 0), isect_material = m\<rparr>"
  using assms eps12_small by (simp add: box_geometry_def slab_forth)

lemma box_hit_back:
  assumes "x0 \<le> x1" "x1 < 9"
  shows "geom_intersect (box_geometry eps12 \<lparr>bmin = (x0, y0, z0), bmax = (x1, y1, z1)\<rparr> m) ray_back
           = Some \<lparr>isect_t = 10 - x1, isect_N = (1, 0, 0), isect_material = m\<rparr>"
  using assms eps12_small by (simp add: box_geometry_def slab_back)

lemma box_bbox: "getBoundingBox (box_geometry e b m) = b"
  by (simp add: box_geometry_def)

text \<open>
  Claim C5 as stated fails in both directions. The bounding-box call of each object rewrites
  \<open>t_min\<close> and \<open>t_max\<close> before the test, so the interval passed in does not constrain the
  answer: with the slab method the leaf holding the box at \<open>x \<in> [2, 3]\<close> reports the hit at
  \<open>t = 2\<close> although the interval passed is \<open>[0, 1]\<close>. And the leaf starts from \<open>t = 10\<^sup>1\<^sup>3\<close>
  and accepts only hits below it: the hit at \<open>t = 2 \<sqdot> 10\<^sup>1\<^sup>3\<close> inside the interval
  \<open>[0, 10\<^sup>1\<^sup>4]\<close> is not reported.
\<close>

theorem leaf_interval_counterexample:
  "fst (findIntersection eps12 (slab_intersect eps12) (LeafNode [box_B]) ray_forth blank_isect 0 1) \<and>
   \<not> leaf_spec_hit [box_B] ray_forth 0 1 \<and>
   \<not> fst (findIntersection eps12 (slab_intersect eps12) (LeafNode [far_box]) ray_forth blank_isect 0 (10 ^ 14)) \<and>
   leaf_spec_hit [far_box] ray_forth 0 (10 ^ 14)"
proof (intro conjI)
  have hitB: "geom_intersect box_B ray_forth = Some \<lparr>isect_t = 2, isect_N = (1, 0, 0), isect_material = paint 2\<rparr>"
    unfolding box_B_def by (rule box_hit_forth) simp_all
  have clipB: "slab_intersect eps12 (getBoundingBox box_B) ray_forth iv = (2, 3)" for iv
    unfolding box_B_def box_bbox by (rule slab_forth) simp
  have hitF: "geom_intersect far_box ray_forth
      = Some \<lparr>isect_t = 2 * 10 ^ 13, isect_N = (1, 0, 0), isect_material = paint 6\<rparr>"
    unfolding far_box_def by (rule box_hit_forth) simp_all
  have clipF: "slab_intersect eps12 (getBoundingBox far_box) ray_forth iv = (2 * 10 ^ 13, 2 * 10 ^ 13 + 1)" for iv
    unfolding far_box_def box_bbox by (rule slab_forth) simp
  show "fst (findIntersection eps12 (slab_intersect eps12) (LeafNode [box_B]) ray_forth blank_isect 0 1)"
    by (simp add: hitB clipB)
  show "\<not> leaf_spec_hit [box_B] ray_forth 0 1"
    by (simp add: leaf_spec_hit_def hitB)
  show "\<not> fst (findIntersection eps12 (slab_intersect eps12) (LeafNode [far_box]) ray_forth blank_isect 0 (10 ^ 14))"
    by (simp add: hitF clipF)
  show "leaf_spec_hit [far_box] ray_forth 0 (10 ^ 14)"
    by (simp add: leaf_spec_hit_def hitF)
qed

text \<open>
  Claim C5, amended. \<open>LeafNode::findIntersection\<close> returns true if and only if some
  geometry of the leaf has a hit with \<open>t < 10\<^sup>1\<^sup>3\<close> that lies in the interval in force when
  that geometry is tested, which is the interval left by the bounding-box calls up to and
  including its own and not the interval passed in; on success the returned hit is such a
  hit and no such hit has a smaller \<open>t\<close>; on failure \<open>i\<close> is left with \<open>t = 10\<^sup>1\<^sup>3\<close>.
\<close>

theorem leaf_findIntersection:
  "(let res = findIntersection eps bbi (LeafNode objList) r i t_min t_max;
        found = fst res;
        i' = fst (snd res)
    in (found \<longleftrightarrow> (\<exists>k c. eligible bbi r objList (t_min, t_max) k c \<and> isect_t c < 10 ^ 13)) \<and>
       (found \<longrightarrow> (\<exists>k. eligible bbi r objList (t_min, t_max) k i') \<and> isect_t i' < 10 ^ 13 \<and>
                  (\<forall>k c. eligible bbi r objList (t_min, t_max) k c \<longrightarrow> isect_t i' \<le> isect_t c)) \<and>
       (\<not> found \<longrightarrow> i' = i\<lparr>isect_t := 10 ^ 13\<rparr>))"
proof -
  let ?i0 = "i\<lparr>isect_t := 10 ^ 13\<rparr>"
  let ?H = "hits bbi r objList (t_min, t_max)"
  have t0: "isect_t ?i0 = 10 ^ 13" by simp
  have res: "findIntersection eps bbi (LeafNode objList) r i t_min t_max
      = ((\<exists>c \<in> set ?H. isect_t c < 10 ^ 13), pick ?i0 ?H,
         foldl (\<lambda>iv obj. bbi (getBoundingBox obj) r iv) (t_min, t_max) objList)"
    using leaf_loop_hits [of bbi r objList False ?i0 "(t_min, t_max)"] by (simp only: findIntersection.simps t0) simp
  have ex: "(\<exists>c \<in> set ?H. isect_t c < 10 ^ 13) \<longleftrightarrow>
      (\<exists>k c. eligible bbi r objList (t_min, t_max) k c \<and> isect_t c < 10 ^ 13)"
    unfolding Bex_def set_hits by blast
  have found: "(\<exists>k. eligible bbi r objList (t_min, t_max) k (pick ?i0 ?H)) \<and> isect_t (pick ?i0 ?H) < 10 ^ 13 \<and>
      (\<forall>k c. eligible bbi r objList (t_min, t_max) k c \<longrightarrow> isect_t (pick ?i0 ?H) \<le> isect_t c)"
    if "\<exists>c \<in> set ?H. isect_t c < 10 ^ 13"
  proof -
    from that have cond: "\<exists>c \<in> set ?H. isect_t c < isect_t ?i0"
      by simp
    note pc = pick_char [of ?H ?i0, unfolded if_P [OF cond]]
    from pc have "pick ?i0 ?H \<in> set ?H \<and> isect_t (pick ?i0 ?H) < 10 ^ 13 \<and>
        (\<forall>c \<in> set ?H. isect_t (pick ?i0 ?H) \<le> isect_t c)"
      unfolding t0 .
    then show ?thesis unfolding Ball_def set_hits by blast
  qed
  have missed: "pick ?i0 ?H = ?i0" if "\<not> (\<exists>c \<in> set ?H. isect_t c < 10 ^ 13)"
  proof -
    from that have cond: "\<not> (\<exists>c \<in> set ?H. isect_t c < isect_t ?i0)"
      by simp
    show ?thesis
      by (rule pick_char [of ?H ?i0, unfolded if_not_P [OF cond]])
  qed
  show ?thesis
    unfolding Let_def res fst_conv snd_conv using ex found missed by blast
qed

theorem leaf_findIntersection_witness:
  "fst (findIntersection eps12 (slab_intersect eps12) (LeafNode [box_A, box_B]) ray_back blank_isect 0 100) \<and>
   isect_t (fst (snd (findIntersection eps12 (slab_intersect eps12) (LeafNode [box_A, box_B]) ray_back blank_isect 0 100))) \<le> 7"
proof -
  let ?res = "findIntersection eps12 (slab_intersect eps12) (LeafNode [box_A, box_B]) ray_back blank_isect 0 100"
  let ?hB = "\<lparr>isect_t = 7, isect_N = (1, 0, 0), isect_material = paint 2\<rparr>"
  have hitB: "geom_intersect box_B ray_back = Some \<lparr>isect_t = 10 - 3, isect_N = (1, 0, 0), isect_material = paint 2\<rparr>"
    unfolding box_B_def by (rule box_hit_back) simp_all
  have clipB: "slab_intersect eps12 (getBoundingBox box_B) ray_back iv = (10 - 3, 10 - 2)" for iv
    unfolding box_B_def box_bbox by (rule slab_back) simp
  have el: "eligible (slab_intersect eps12) ray_back [box_A, box_B] (0, 100) 1 ?hB"
    using hitB by (simp add: eligible_def clip_after_def clipB)
  note inst = leaf_findIntersection [of eps12 "slab_intersect eps12" "[box_A, box_B]" ray_back blank_isect 0 100,
      unfolded Let_def]
  from el have "\<exists>k c. eligible (slab_intersect eps12) ray_back [box_A, box_B] (0, 100) k c \<and> isect_t c < 10 ^ 13"
    by (intro exI [of _ 1] exI [of _ ?hB]) simp
  with inst have f: "fst ?res" by blast
  with inst have "\<forall>k c. eligible (slab_intersect eps12) ray_back [box_A, box_B] (0, 100) k c
      \<longrightarrow> isect_t (fst (snd ?res)) \<le> isect_t c"
    by blast
  with el have "isect_t (fst (snd ?res)) \<le> isect_t ?hB" by blast
  with f show ?thesis by simp
qed

section \<open>The tree against the linear scan\<close>

text \<open>
  Modelled from the spec: the linear scan of \<open>Scene::intersect\<close> is not among the
  sources. The specification describes it as the scan over all scene geometries that keeps
  the nearest hit; it is also the loop left commented out at the end of
  \<open>LeafNode::findIntersection\<close> (\<open>if (!have_one || cur.getT() < i.getT()) i = cur\<close>).
\<close>

fun linear_loop :: "ray \<Rightarrow> Geometry list \<Rightarrow> isect option \<Rightarrow> isect option" where
  "linear_loop r [] best = best"
| "linear_loop r (obj # objs) best =
     (case geom_intersect obj r of
        None \<Rightarrow> linear_loop r objs best
      | Some cur \<Rightarrow>
          (case best of
             None \<Rightarrow> linear_loop r objs (Some cur)
           | Some i \<Rightarrow>
               if isect_t cur < isect_t i then linear_loop r objs (Some cur)
               else linear_loop r objs best))"

definition linear_scan :: "Geometry list \<Rightarrow> ray \<Rightarrow> isect option" where
  "linear_scan objs r = linear_loop r objs None"

lemma two_box_best:
  "findBestPlane exact area u [box_A, box_B] scene_bbox
     = fill_plane area [box_A, box_B] (candidate u scene_bbox 0 1)"
  using below_1e100
  by (simp add: findBestPlane_def planeList_keys two_box_keys Let_def cost_candidate two_box_costs)

lemma two_box_bounds:
  "obj_min box_A 0 = 0" "obj_max box_A 0 = 1" "obj_min box_B 0 = 2" "obj_max box_B 0 = 3"
  by (simp_all add: box_A_def box_B_def box_geometry_def obj_min_def obj_max_def)

lemma two_box_route:
  "route [box_A, box_B] (fill_plane area [box_A, box_B] (candidate u scene_bbox 0 1)) ([], [])
     = ([box_A], [box_B])"
  by (simp add: route_eq fill_candidate two_box_bounds)

lemma buildTreeHelper_leaf:
  assumes "int (length objs) \<le> leafSize"
  shows "buildTreeHelper rd A u objs bbox depthLimit leafSize depth = Some (LeafNode objs)"
  using assms by (subst buildTreeHelper.simps) auto

lemma two_box_tree:
  "buildTree exact area u [box_A, box_B] scene_bbox 15 1
     = Some (SplitNode 0 1 scene_bbox (LeafNode [box_A]) (LeafNode [box_B]))"
proof -
  let ?bp = "fill_plane area [box_A, box_B] (candidate u scene_bbox 0 1)"
  have fields: "axis ?bp = 0" "position ?bp = 1"
    by (simp_all add: fill_candidate)
  have leaves: "buildTreeHelper exact area u [box_A] (leftBBox ?bp) 15 1 1 = Some (LeafNode [box_A])"
    "buildTreeHelper exact area u [box_B] (rightBBox ?bp) 15 1 1 = Some (LeafNode [box_B])"
    by (simp_all add: buildTreeHelper_leaf)
  show ?thesis
    unfolding buildTree_def
    by (subst buildTreeHelper.simps)
      (simp add: two_box_best two_box_route leaves fields double_to_int_def trunc0_def int_range_def
        Let_def del: route.simps)
qed

text \<open>
  Claim C1 does not hold of the code. The scene of two unit-sized boxes, \<open>A\<close> at
  \<open>x \<in> [0, 1]\<close> and \<open>B\<close> at \<open>x \<in> [2, 3]\<close>, is built (depth limit 15, leaf size 1) into a split
  at \<open>x = 1\<close> with \<open>A\<close> on the left and \<open>B\<close> on the right. A ray from \<open>x = 10\<close> towards
  \<open>-x\<close> meets \<open>B\<close> at \<open>t = 7\<close> and then \<open>A\<close> at \<open>t = 9\<close>. The split node finds the plane
  inside the ray's interval, asks the left child first and returns as soon as it reports a
  hit: the tree answers with \<open>A\<close> at \<open>t = 9\<close>, the linear scan with \<open>B\<close> at \<open>t = 7\<close>.
  In the construction every count, area, product and sum is an integer below 30, exact in
  double arithmetic; the two cheapest candidates, \<open>x = 1\<close> and \<open>x = 2\<close>, have the same
  quotient \<open>16 / 14\<close>, so that their costs tie with and without rounding, below the cost 2 of
  the others.
\<close>

theorem kd_tree_returns_farther_hit:
  "buildTree exact area u [box_A, box_B] scene_bbox 15 1
     = Some (SplitNode 0 1 scene_bbox (LeafNode [box_A]) (LeafNode [box_B])) \<and>
   kd_intersect eps12 (slab_intersect eps12)
       (SplitNode 0 1 scene_bbox (LeafNode [box_A]) (LeafNode [box_B])) ray_back blank_isect 0 (10 ^ 13)
     = (True, \<lparr>isect_t = 9, isect_N = (1, 0, 0), isect_material = paint 1\<rparr>, 9, 10) \<and>
   linear_scan [box_A, box_B] ray_back
     = Some \<lparr>isect_t = 7, isect_N = (1, 0, 0), isect_material = paint 2\<rparr>"
proof (intro conjI)
  have hitA: "geom_intersect box_A ray_back = Some \<lparr>isect_t = 10 - 1, isect_N = (1, 0, 0), isect_material = paint 1\<rparr>"
    unfolding box_A_def by (rule box_hit_back) simp_all
  have hitB: "geom_intersect box_B ray_back = Some \<lparr>isect_t = 10 - 3, isect_N = (1, 0, 0), isect_material = paint 2\<rparr>"
    unfolding box_B_def by (rule box_hit_back) simp_all
  have clipA: "slab_intersect eps12 (getBoundingBox box_A) ray_back iv = (10 - 1, 10 - 0)" for iv
    unfolding box_A_def box_bbox by (rule slab_back) simp
  have clipS: "slab_intersect eps12 scene_bbox ray_back iv = (10 - 3, 10 - 0)" for iv
    unfolding scene_bbox_def by (rule slab_back) simp
  have dir: "vidx (direction ray_back) 0 = - 1"
    by (simp add: ray_back_def mk_ray_def)
  have at: "vidx (ray_at ray_back t) 0 = 10 - t" for t
    by (simp add: ray_back_def mk_ray_def ray_at_def)
  show "buildTree exact area u [box_A, box_B] scene_bbox 15 1
     = Some (SplitNode 0 1 scene_bbox (LeafNode [box_A]) (LeafNode [box_B]))"
    by (rule two_box_tree)
  show "kd_intersect eps12 (slab_intersect eps12)
       (SplitNode 0 1 scene_bbox (LeafNode [box_A]) (LeafNode [box_B])) ray_back blank_isect 0 (10 ^ 13)
     = (True, \<lparr>isect_t = 9, isect_N = (1, 0, 0), isect_material = paint 1\<rparr>, 9, 10)"
    using eps12_small by (simp add: kd_intersect_def clipS clipA hitA dir at Let_def)
  show "linear_scan [box_A, box_B] ray_back
     = Some \<lparr>isect_t = 7, isect_N = (1, 0, 0), isect_material = paint 2\<rparr>"
    by (simp add: linear_scan_def hitA hitB)
qed

end
